theory Spec2Isabelle
  imports Main
begin

section \<open>Python values and the outside world\<close>

text \<open>
  The module \<^verbatim>\<open>urllib3/connection.py\<close> builds three connection classes on top of
  \<^verbatim>\<open>httplib\<close>, \<^verbatim>\<open>socket\<close> and \<^verbatim>\<open>ssl\<close>. The embedding keeps the control flow of every
  method of the module and takes the library calls it makes (dialling, \<^verbatim>\<open>setsockopt\<close>,
  the proxy tunnel, the TLS handshake, hostname matching) from an environment record, so
  that each method becomes a function of the environment and of the connection object.
  Every library call a method makes is written to a log, in the order of the calls.
\<close>

text \<open>The attribute values the module tests for truth, for \<^verbatim>\<open>None\<close> or for \<^verbatim>\<open>False\<close>.\<close>

datatype pyval = PyNone | PyBool bool | PyInt int | PyStr string

fun truthy :: "pyval \<Rightarrow> bool" where
  "truthy PyNone = False"
| "truthy (PyBool b) = b"
| "truthy (PyInt i) = (i \<noteq> 0)"
| "truthy (PyStr s) = (s \<noteq> [])"

text \<open>Python's \<^verbatim>\<open>a or b\<close>.\<close>

definition py_or :: "pyval \<Rightarrow> pyval \<Rightarrow> pyval" where
  "py_or a b = (if truthy a then a else b)"

type_synonym sock = nat
type_synonym sockopt = "int \<times> int \<times> int"
type_synonym address = "string \<times> int"
type_synonym peercert = "(string \<times> string) list"

text \<open>Exceptions raised inside the libraries; the module lets all of them through but one.\<close>

datatype exn = SocketTimeout | SocketError | SSLError | CertificateError | OtherError

text \<open>Constants of the \<^verbatim>\<open>socket\<close> and \<^verbatim>\<open>ssl\<close> modules (Linux values).\<close>

definition IPPROTO_TCP :: int where "IPPROTO_TCP = 6"
definition TCP_NODELAY :: int where "TCP_NODELAY = 1"
definition CERT_NONE :: int where "CERT_NONE = 0"

definition port_by_scheme :: "string \<rightharpoonup> int" where
  "port_by_scheme = [''http'' \<mapsto> 80, ''https'' \<mapsto> 443]"

section \<open>The connection object\<close>

text \<open>
  One record holds the attributes of all three classes. The type \<open>'t\<close> is the type of the
  timeout value, which the module only passes on and prints. The two attributes that only
  \<^verbatim>\<open>set_cert\<close> creates are options: \<open>None\<close> is an attribute that does not exist, so that
  reading it raises \<^verbatim>\<open>AttributeError\<close>. \<open>tunnel_host\<close> is \<^verbatim>\<open>getattr(self, '_tunnel_host', None)\<close>.
\<close>

record 't connection =
  host :: string
  port :: int
  timeout :: 't
  source_address :: "address option"
  socket_options :: "sockopt list option"
  tunnel_host :: "string option"
  sock :: "sock option"
  auto_open :: int
  key_file :: "string option"
  cert_file :: "string option"
  cert_reqs :: pyval
  ca_certs :: "string option"
  ssl_version :: pyval
  assert_hostname :: "pyval option"
  assert_fingerprint :: "pyval option"

datatype 't error =
    ConnectTimeoutError "'t connection" string
  | Raised exn
  | AttributeError string
  | FingerprintMismatchError pyval string

text \<open>
  The library calls. \<open>tunnel\<close> is \<^verbatim>\<open>httplib\<close>'s \<^verbatim>\<open>_tunnel\<close>: on success it returns the host and
  port that its \<^verbatim>\<open>_set_hostport\<close> call stores in the connection. \<open>resolve_cert_reqs\<close>,
  \<open>resolve_ssl_version\<close> and \<open>ssl_wrap_socket\<close> are the helpers of \<^verbatim>\<open>urllib3.util\<close> that
  the module imports; \<open>fingerprint\<close> is the digest of a certificate in binary form;
  \<open>str_timeout\<close> is Python's \<^verbatim>\<open>%s\<close> formatting of the timeout value.
\<close>

record 't env =
  create_connection :: "address \<Rightarrow> 't \<Rightarrow> address list \<Rightarrow> exn + sock"
  setsockopt :: "sock \<Rightarrow> sockopt \<Rightarrow> exn option"
  tunnel :: "string \<Rightarrow> sock \<Rightarrow> exn + address"
  wrap_socket :: "sock \<Rightarrow> string option \<Rightarrow> string option \<Rightarrow> exn + sock"
  resolve_cert_reqs :: "pyval \<Rightarrow> exn + int"
  resolve_ssl_version :: "pyval \<Rightarrow> exn + int"
  ssl_wrap_socket :: "sock \<Rightarrow> string option \<Rightarrow> string option \<Rightarrow> int \<Rightarrow> string option
                        \<Rightarrow> string \<Rightarrow> int \<Rightarrow> exn + sock"
  getpeercert :: "sock \<Rightarrow> peercert"
  getpeercert_binary :: "sock \<Rightarrow> string"
  fingerprint :: "string \<Rightarrow> string"
  match_hostname :: "peercert \<Rightarrow> pyval \<Rightarrow> exn option"
  str_timeout :: "'t \<Rightarrow> string"

datatype 't event =
    Create_connection address 't "address list"
  | Setsockopt sock sockopt
  | Tunnel string sock
  | Wrap_socket sock "string option" "string option"
  | Ssl_wrap_socket sock "string option" "string option" int "string option" string int
  | Assert_fingerprint string pyval
  | Match_hostname peercert pyval

section \<open>HTTPConnection\<close>

definition default_port_http :: int where
  "default_port_http = (case port_by_scheme ''http'' of Some p \<Rightarrow> p | None \<Rightarrow> 0)"

definition default_port_https :: int where
  "default_port_https = (case port_by_scheme ''https'' of Some p \<Rightarrow> p | None \<Rightarrow> 0)"

definition default_socket_options :: "sockopt list" where
  "default_socket_options = [(IPPROTO_TCP, TCP_NODELAY, 1)]"

text \<open>
  \<^verbatim>\<open>HTTPConnection.__init__\<close> on Python 2.7, where neither version test removes a keyword.
  The keyword \<^verbatim>\<open>socket_options\<close> is \<open>None\<close> when it is not given, \<open>Some None\<close> when it is
  given as \<^verbatim>\<open>None\<close>. The superclass constructor sets the other attributes; a port that is
  not given becomes the class's default port.
\<close>

definition HTTPConnection_init ::
  "string \<Rightarrow> int option \<Rightarrow> 't \<Rightarrow> address option \<Rightarrow> sockopt list option option \<Rightarrow> 't connection" where
  "HTTPConnection_init h p t src opts_kw =
     \<lparr> host = h,
       port = (case p of None \<Rightarrow> default_port_http | Some n \<Rightarrow> n),
       timeout = t,
       source_address = src,
       socket_options = (case opts_kw of None \<Rightarrow> Some default_socket_options | Some v \<Rightarrow> v),
       tunnel_host = None,
       sock = None,
       auto_open = 1,
       key_file = None,
       cert_file = None,
       cert_reqs = PyNone,
       ca_certs = None,
       ssl_version = PyNone,
       assert_hostname = None,
       assert_fingerprint = None \<rparr>"

text \<open>The loop of \<^verbatim>\<open>_set_options_on\<close>: one \<^verbatim>\<open>setsockopt\<close> call per option, until one raises.\<close>

fun apply_options :: "'t env \<Rightarrow> sock \<Rightarrow> sockopt list \<Rightarrow> 't event list \<times> 't error option" where
  "apply_options w conn [] = ([], None)"
| "apply_options w conn (opt # opts) =
     (case setsockopt w conn opt of
        Some x \<Rightarrow> ([Setsockopt conn opt], Some (Raised x))
      | None \<Rightarrow> (case apply_options w conn opts of
                   (evs, r) \<Rightarrow> (Setsockopt conn opt # evs, r)))"

definition set_options_on :: "'t env \<Rightarrow> 't connection \<Rightarrow> sock \<Rightarrow> 't event list \<times> 't error option" where
  "set_options_on w self conn =
     (case socket_options self of
        None \<Rightarrow> ([], None)
      | Some opts \<Rightarrow> apply_options w conn opts)"

definition timeout_message :: "'t env \<Rightarrow> 't connection \<Rightarrow> string" where
  "timeout_message w self =
     ''Connection to '' @ host self @ '' timed out. (connect timeout='' @
     str_timeout w (timeout self) @ '')''"

definition new_conn :: "'t env \<Rightarrow> 't connection \<Rightarrow> 't event list \<times> ('t error + sock)" where
  "new_conn w self =
     (let extra_args = (case source_address self of None \<Rightarrow> [] | Some a \<Rightarrow> [a]);
          dial = Create_connection (host self, port self) (timeout self) extra_args
      in case create_connection w (host self, port self) (timeout self) extra_args of
           Inl x \<Rightarrow>
             (if x = SocketTimeout
              then ([dial], Inl (ConnectTimeoutError self (timeout_message w self)))
              else ([dial], Inl (Raised x)))
         | Inr conn \<Rightarrow>
             (case set_options_on w self conn of
                (evs, Some e) \<Rightarrow> (dial # evs, Inl e)
              | (evs, None) \<Rightarrow> (dial # evs, Inr conn)))"

definition prepare_conn ::
  "'t env \<Rightarrow> 't connection \<Rightarrow> sock \<Rightarrow> 't event list \<times> 't connection \<times> 't error option" where
  "prepare_conn w self conn =
     (let self1 = self\<lparr>sock := Some conn\<rparr>
      in case tunnel_host self1 of
           None \<Rightarrow> ([], self1, None)
         | Some th \<Rightarrow>
             if th = [] then ([], self1, None)
             else (case tunnel w th conn of
                     Inl x \<Rightarrow> ([Tunnel th conn], self1, Some (Raised x))
                   | Inr (h, p) \<Rightarrow>
                       ([Tunnel th conn], self1\<lparr>host := h, port := p, auto_open := 0\<rparr>, None)))"

definition HTTPConnection_connect ::
  "'t env \<Rightarrow> 't connection \<Rightarrow> 't event list \<times> 't connection \<times> 't error option" where
  "HTTPConnection_connect w self =
     (case new_conn w self of
        (evs, Inl e) \<Rightarrow> (evs, self, Some e)
      | (evs, Inr conn) \<Rightarrow>
          (case prepare_conn w self conn of
             (evs2, self2, r) \<Rightarrow> (evs @ evs2, self2, r)))"

section \<open>HTTPSConnection (exported as UnverifiedHTTPSConnection)\<close>

definition HTTPSConnection_init ::
  "string \<Rightarrow> int option \<Rightarrow> string option \<Rightarrow> string option \<Rightarrow> 't \<Rightarrow> address option
     \<Rightarrow> sockopt list option option \<Rightarrow> 't connection" where
  "HTTPSConnection_init h p kf cf t src opts_kw =
     (HTTPConnection_init h (Some (case p of None \<Rightarrow> default_port_https | Some n \<Rightarrow> n)) t src opts_kw)
       \<lparr>key_file := kf, cert_file := cf\<rparr>"

definition HTTPSConnection_connect ::
  "'t env \<Rightarrow> 't connection \<Rightarrow> 't event list \<times> 't connection \<times> 't error option" where
  "HTTPSConnection_connect w self =
     (case new_conn w self of
        (evs, Inl e) \<Rightarrow> (evs, self, Some e)
      | (evs, Inr conn) \<Rightarrow>
          (case prepare_conn w self conn of
             (evs2, self2, Some e) \<Rightarrow> (evs @ evs2, self2, Some e)
           | (evs2, self2, None) \<Rightarrow>
               (let wrap = Wrap_socket conn (key_file self2) (cert_file self2)
                in case wrap_socket w conn (key_file self2) (cert_file self2) of
                     Inl x \<Rightarrow> (evs @ evs2 @ [wrap], self2, Some (Raised x))
                   | Inr tls \<Rightarrow> (evs @ evs2 @ [wrap], self2\<lparr>sock := Some tls\<rparr>, None))))"

section \<open>VerifiedHTTPSConnection\<close>

definition set_cert ::
  "'t connection \<Rightarrow> string option \<Rightarrow> string option \<Rightarrow> pyval \<Rightarrow> string option \<Rightarrow> pyval \<Rightarrow> pyval
     \<Rightarrow> 't connection" where
  "set_cert self kf cf reqs ca ah fp =
     self\<lparr>key_file := kf, cert_file := cf, cert_reqs := reqs, ca_certs := ca,
          assert_hostname := Some ah, assert_fingerprint := Some fp\<rparr>"

text \<open>
  Modelled from the spec: \<^verbatim>\<open>assert_fingerprint\<close> of \<^verbatim>\<open>urllib3.util\<close>, which is not among
  the sources. The spec (4.5): compute the exact binary fingerprint of the peer's certificate
  and compare it byte for byte to the expected value; a mismatch fails with
  FingerprintMismatchError naming both values.
\<close>

definition util_assert_fingerprint :: "'t env \<Rightarrow> string \<Rightarrow> pyval \<Rightarrow> 't error option" where
  "util_assert_fingerprint w cert fp =
     (if PyStr (fingerprint w cert) = fp then None
      else Some (FingerprintMismatchError fp (fingerprint w cert)))"

text \<open>
  \<^verbatim>\<open>VerifiedHTTPSConnection.connect\<close>, in three parts. Lines 197 to 210: the hostname and
  the tunnel.
\<close>

definition verified_tunnel ::
  "'t env \<Rightarrow> 't connection \<Rightarrow> sock \<Rightarrow> 't event list \<times> 't connection \<times> ('t error + string)" where
  "verified_tunnel w self conn =
     (let hostname = host self
      in case tunnel_host self of
           None \<Rightarrow> ([], self, Inr hostname)
         | Some th \<Rightarrow>
             if th = [] then ([], self, Inr hostname)
             else (let self1 = self\<lparr>sock := Some conn\<rparr>
                   in case tunnel w th conn of
                        Inl x \<Rightarrow> ([Tunnel th conn], self1, Inl (Raised x))
                      | Inr (h, p) \<Rightarrow>
                          ([Tunnel th conn], self1\<lparr>host := h, port := p, auto_open := 0\<rparr>, Inr th)))"

text \<open>
  Lines 192 to 218: everything up to and including the TLS handshake. On success the result
  is the resolved certificate requirement, the hostname and the wrapped socket.
\<close>

definition verified_handshake ::
  "'t env \<Rightarrow> 't connection
     \<Rightarrow> 't event list \<times> 't connection \<times> ('t error + (int \<times> string \<times> sock))" where
  "verified_handshake w self =
     (case new_conn w self of
        (evs, Inl e) \<Rightarrow> (evs, self, Inl e)
      | (evs, Inr conn) \<Rightarrow>
     (case resolve_cert_reqs w (cert_reqs self) of
        Inl x \<Rightarrow> (evs, self, Inl (Raised x))
      | Inr resolved_cert_reqs \<Rightarrow>
     (case resolve_ssl_version w (ssl_version self) of
        Inl x \<Rightarrow> (evs, self, Inl (Raised x))
      | Inr resolved_ssl_version \<Rightarrow>
     (case verified_tunnel w self conn of
        (evs2, self2, Inl e) \<Rightarrow> (evs @ evs2, self2, Inl e)
      | (evs2, self2, Inr hostname) \<Rightarrow>
     (let wrap = Ssl_wrap_socket conn (key_file self2) (cert_file self2) resolved_cert_reqs
                   (ca_certs self2) hostname resolved_ssl_version
      in case ssl_wrap_socket w conn (key_file self2) (cert_file self2) resolved_cert_reqs
                (ca_certs self2) hostname resolved_ssl_version of
           Inl x \<Rightarrow> (evs @ evs2 @ [wrap], self2, Inl (Raised x))
         | Inr tls \<Rightarrow>
             (evs @ evs2 @ [wrap], self2\<lparr>sock := Some tls\<rparr>,
              Inr (resolved_cert_reqs, hostname, tls)))))))"

text \<open>Lines 220 to 226: the checks after the handshake, on the wrapped socket.\<close>

definition verified_checks ::
  "'t env \<Rightarrow> 't connection \<Rightarrow> int \<Rightarrow> string \<Rightarrow> sock \<Rightarrow> 't event list \<times> 't error option" where
  "verified_checks w self resolved_cert_reqs hostname tls =
     (if resolved_cert_reqs \<noteq> CERT_NONE then
        (case assert_fingerprint self of
           None \<Rightarrow> ([], Some (AttributeError ''assert_fingerprint''))
         | Some fp \<Rightarrow>
             if truthy fp then
               ([Assert_fingerprint (getpeercert_binary w tls) fp],
                util_assert_fingerprint w (getpeercert_binary w tls) fp)
             else
               (case assert_hostname self of
                  None \<Rightarrow> ([], Some (AttributeError ''assert_hostname''))
                | Some ah \<Rightarrow>
                    if ah \<noteq> PyBool False then
                      ([Match_hostname (getpeercert w tls) (py_or ah (PyStr hostname))],
                       map_option Raised
                         (match_hostname w (getpeercert w tls) (py_or ah (PyStr hostname))))
                    else ([], None)))
      else ([], None))"

definition VerifiedHTTPSConnection_connect ::
  "'t env \<Rightarrow> 't connection \<Rightarrow> 't event list \<times> 't connection \<times> 't error option" where
  "VerifiedHTTPSConnection_connect w self =
     (case verified_handshake w self of
        (evs, self2, Inl e) \<Rightarrow> (evs, self2, Some e)
      | (evs, self2, Inr (resolved_cert_reqs, hostname, tls)) \<Rightarrow>
          (case verified_checks w self2 resolved_cert_reqs hostname tls of
             (evs3, r) \<Rightarrow> (evs @ evs3, self2, r)))"

section \<open>The log of a connection attempt\<close>

text \<open>
  The first library call of every attempt: \<^verbatim>\<open>socket.create_connection\<close> with the source
  address as the only extra argument, when there is one.
\<close>

definition dial_event :: "'t connection \<Rightarrow> 't event" where
  "dial_event self =
     Create_connection (host self, port self) (timeout self)
       (case source_address self of None \<Rightarrow> [] | Some a \<Rightarrow> [a])"

text \<open>
  The step of an attempt a library call belongs to: dialling, socket options, the tunnel,
  the TLS handshake, the checks after the handshake.
\<close>

fun stage :: "'t event \<Rightarrow> nat" where
  "stage (Create_connection a t xs) = 0"
| "stage (Setsockopt c opt) = 1"
| "stage (Tunnel th c) = 2"
| "stage (Wrap_socket c k f) = 3"
| "stage (Ssl_wrap_socket c k f q ca hn v) = 3"
| "stage (Assert_fingerprint der fp) = 4"
| "stage (Match_hostname cert n) = 4"

text \<open>Whether the environment lets a call return normally.\<close>

fun call_ok :: "'t env \<Rightarrow> 't event \<Rightarrow> bool" where
  "call_ok w (Create_connection a t xs) = (\<not> isl (create_connection w a t xs))"
| "call_ok w (Setsockopt c opt) = (setsockopt w c opt = None)"
| "call_ok w (Tunnel th c) = (\<not> isl (tunnel w th c))"
| "call_ok w (Wrap_socket c k f) = (\<not> isl (wrap_socket w c k f))"
| "call_ok w (Ssl_wrap_socket c k f q ca hn v) = (\<not> isl (ssl_wrap_socket w c k f q ca hn v))"
| "call_ok w (Assert_fingerprint der fp) = (util_assert_fingerprint w der fp = (None :: 't error option))"
| "call_ok w (Match_hostname cert n) = (match_hostname w cert n = None)"

text \<open>
  The states of the specification (3 and 4.6), following the words of the spec and not the
  code: the state a successful call leaves the attempt in, and the order in which the spec
  lists the states.
\<close>

datatype phase = Unconnected | RawConnected | Tunneled | TLSWrapped | Ready | Failed

fun phase_after :: "'t event \<Rightarrow> phase" where
  "phase_after (Create_connection a t xs) = RawConnected"
| "phase_after (Setsockopt c opt) = RawConnected"
| "phase_after (Tunnel th c) = Tunneled"
| "phase_after (Wrap_socket c k f) = TLSWrapped"
| "phase_after (Ssl_wrap_socket c k f q ca hn v) = TLSWrapped"
| "phase_after (Assert_fingerprint der fp) = TLSWrapped"
| "phase_after (Match_hostname cert n) = TLSWrapped"

fun rank :: "phase \<Rightarrow> nat" where
  "rank Unconnected = 0"
| "rank RawConnected = 1"
| "rank Tunneled = 2"
| "rank TLSWrapped = 3"
| "rank Ready = 4"
| "rank Failed = 5"

definition phase_of :: "'t env \<Rightarrow> 't event \<Rightarrow> phase" where
  "phase_of w e = (if call_ok w e then phase_after e else Failed)"

text \<open>
  The states an attempt visits: it starts unconnected, every call moves it to the state
  after the call or to \<open>Failed\<close>, and it ends in \<open>Ready\<close> when the method returns and in
  \<open>Failed\<close> when it raises.
\<close>

definition trajectory :: "'t env \<Rightarrow> 't event list \<Rightarrow> 't error option \<Rightarrow> phase list" where
  "trajectory w evs r =
     Unconnected # map (phase_of w) evs @ [if r = None then Ready else Failed]"

text \<open>
  A log moves forward: the steps never go back, only the last call can have failed, a
  method that returns has seen no call fail, and every step but the option loop makes at
  most one call.
\<close>

definition forward :: "'t env \<Rightarrow> 't event list \<Rightarrow> bool \<Rightarrow> bool" where
  "forward w evs failed =
     (sorted (map stage evs) \<and>
      (\<forall>e \<in> set (butlast evs). call_ok w e) \<and>
      (failed \<or> (\<forall>e \<in> set evs. call_ok w e)) \<and>
      (\<forall>k. k \<noteq> Suc 0 \<longrightarrow> length (filter (\<lambda>e. stage e = k) evs) \<le> 1))"

text \<open>
  The path spec 4.6 lays out for an attempt, without the final state: every variant
  connects the raw socket, tunnels when a tunnel host is set, and the two HTTPS variants
  wrap the socket.
\<close>

definition tunnel_requested :: "'t connection \<Rightarrow> bool" where
  "tunnel_requested self = (case tunnel_host self of None \<Rightarrow> False | Some th \<Rightarrow> th \<noteq> [])"

definition planned_path :: "bool \<Rightarrow> 't connection \<Rightarrow> phase list" where
  "planned_path tls self =
     [Unconnected, RawConnected] @
     (if tunnel_requested self then [Tunneled] else []) @
     (if tls then [TLSWrapped] else [])"

text \<open>
  An attempt follows the path: the states it visits, repetitions of a state dropped, are
  the whole path and then \<open>Ready\<close> when the method returns, and a non-empty initial part
  of the path and then \<open>Failed\<close> when it raises.
\<close>

definition follows_path :: "'t env \<Rightarrow> 't connection \<Rightarrow> bool \<Rightarrow> 't event list \<Rightarrow> 't error option \<Rightarrow> bool" where
  "follows_path w self tls evs r =
     (if r = None then remdups_adj (trajectory w evs r) = planned_path tls self @ [Ready]
      else (\<exists>n. 0 < n \<and>
              remdups_adj (trajectory w evs r) = take n (planned_path tls self) @ [Failed]))"

text \<open>
  The certificate requirement a handshake call asks for. \<^verbatim>\<open>ssl.wrap_socket(sock, keyfile,
  certfile)\<close> leaves the parameter \<^verbatim>\<open>cert_reqs\<close> of the standard library at its default,
  \<^verbatim>\<open>CERT_NONE\<close>; \<^verbatim>\<open>ssl_wrap_socket\<close> is given the resolved requirement.
\<close>

fun requested_cert_reqs :: "'t event \<Rightarrow> int option" where
  "requested_cert_reqs (Wrap_socket c k f) = Some CERT_NONE"
| "requested_cert_reqs (Ssl_wrap_socket c k f q ca hn v) = Some q"
| "requested_cert_reqs (Create_connection a t xs) = None"
| "requested_cert_reqs (Setsockopt c opt) = None"
| "requested_cert_reqs (Tunnel th c) = None"
| "requested_cert_reqs (Assert_fingerprint der fp) = None"
| "requested_cert_reqs (Match_hostname cert n) = None"

section \<open>A concrete environment\<close>

text \<open>
  A proxy at \<^verbatim>\<open>proxy.example:3128\<close> that tunnels to \<^verbatim>\<open>target.example\<close>, whose certificate
  names \<^verbatim>\<open>target.example\<close>; dialling \<^verbatim>\<open>down.example\<close> times out.
\<close>

definition example_env :: "nat env" where
  "example_env =
     \<lparr> create_connection = (\<lambda>a t xs. if fst a = ''down.example'' then Inl SocketTimeout else Inr 7),
       setsockopt = (\<lambda>c opt. None),
       tunnel = (\<lambda>th c. Inr (th, 443)),
       wrap_socket = (\<lambda>c k f. Inr 8),
       resolve_cert_reqs = (\<lambda>v. if v = PyNone then Inr CERT_NONE else Inr 2),
       resolve_ssl_version = (\<lambda>v. Inr 2),
       ssl_wrap_socket = (\<lambda>c k f q ca hn v. Inr 8),
       getpeercert = (\<lambda>s. [(''DNS'', ''target.example'')]),
       getpeercert_binary = (\<lambda>s. ''der''),
       fingerprint = (\<lambda>d. ''AA''),
       match_hostname = (\<lambda>cert n. if n \<in> PyStr ` snd ` set cert then None else Some CertificateError),
       str_timeout = (\<lambda>t. ''5'') \<rparr>"

definition example_conn :: "nat connection" where
  "example_conn =
     (HTTPSConnection_init ''proxy.example'' (Some 3128) None None 5 None None)
       \<lparr>tunnel_host := Some ''target.example''\<rparr>"

definition verified_example :: "nat connection" where
  "verified_example =
     set_cert example_conn None None (PyStr ''CERT_REQUIRED'') None PyNone PyNone"

definition example_log :: "nat event list" where
  "example_log =
     [Create_connection (''proxy.example'', 3128) 5 [], Setsockopt 7 (6, 1, 1),
      Tunnel ''target.example'' 7,
      Ssl_wrap_socket 7 None None 2 None ''target.example'' 2]"

text \<open>
  Further connections to the same proxy: one with a fingerprint, one with a hostname
  override, one whose override is the proxy's own name, and one on which \<^verbatim>\<open>set_cert\<close> was
  never called.
\<close>

definition fingerprint_example :: "nat connection" where
  "fingerprint_example =
     set_cert example_conn None None (PyStr ''CERT_REQUIRED'') None PyNone (PyStr ''AA'')"

definition override_example :: "nat connection" where
  "override_example =
     set_cert example_conn None None (PyStr ''CERT_REQUIRED'') None (PyStr ''alias.example'') PyNone"

definition proxy_named_example :: "nat connection" where
  "proxy_named_example =
     set_cert example_conn None None (PyStr ''CERT_REQUIRED'') None (PyStr ''proxy.example'') PyNone"

definition unset_example :: "nat connection" where
  "unset_example = example_conn\<lparr>cert_reqs := PyStr ''CERT_REQUIRED''\<rparr>"


text \<open>
  An environment in which \<^verbatim>\<open>resolve_cert_reqs\<close> raises, and a connection to the host that
  does not answer.
\<close>

definition broken_resolver_env :: "nat env" where
  "broken_resolver_env = example_env\<lparr>resolve_cert_reqs := \<lambda>v. Inl OtherError\<rparr>"

definition down_example :: "nat connection" where
  "down_example = example_conn\<lparr>host := ''down.example''\<rparr>"

section \<open>Facts about the log\<close>

lemma apply_options_events:
  "fst (apply_options w conn opts) =
     map (Setsockopt conn)
       (take (Suc (length (takeWhile (\<lambda>opt. setsockopt w conn opt = None) opts))) opts)"
  by (induction opts) (auto split: option.splits prod.splits)

lemma apply_options_result:
  "(snd (apply_options w conn opts) = None) = (\<forall>opt \<in> set opts. setsockopt w conn opt = None)"
  by (induction opts) (auto split: option.splits prod.splits)

lemma apply_options_all:
  "\<forall>opt \<in> set opts. setsockopt w conn opt = None \<Longrightarrow>
     apply_options w conn opts = (map (Setsockopt conn) opts, None)"
  by (induction opts) (auto split: option.splits prod.splits)

lemma apply_options_stage:
  "apply_options w conn opts = (evs, r) \<Longrightarrow> e \<in> set evs \<Longrightarrow> stage e = Suc 0"
  by (induction opts arbitrary: evs r) (auto split: option.splits prod.splits)

lemma apply_options_ok:
  "apply_options w conn opts = (evs, r) \<Longrightarrow> e \<in> set (butlast evs) \<Longrightarrow> call_ok w e"
  by (induction opts arbitrary: evs r) (auto split: option.splits prod.splits if_splits)

lemma apply_options_empty:
  "apply_options w conn opts = ([], r) \<Longrightarrow> r = None"
  by (cases opts) (auto split: option.splits prod.splits)

lemma apply_options_last:
  "apply_options w conn opts = (evs, r) \<Longrightarrow> evs \<noteq> [] \<Longrightarrow> call_ok w (last evs) = (r = None)"
  by (induction opts arbitrary: evs r)
    (auto split: option.splits prod.splits if_splits dest: apply_options_empty)

lemma set_options_on_stage:
  "set_options_on w self conn = (os, ro) \<Longrightarrow> e \<in> set os \<Longrightarrow> stage e = Suc 0"
  by (auto simp: set_options_on_def split: option.splits dest: apply_options_stage)

lemma set_options_on_ok:
  "set_options_on w self conn = (os, ro) \<Longrightarrow> e \<in> set (butlast os) \<Longrightarrow> call_ok w e"
  by (auto simp: set_options_on_def split: option.splits dest: apply_options_ok)

lemma set_options_on_last:
  "set_options_on w self conn = (os, ro) \<Longrightarrow> os \<noteq> [] \<Longrightarrow> call_ok w (last os) = (ro = None)"
  using apply_options_last [of w conn _ os ro]
  by (auto simp: set_options_on_def split: option.splits)

lemma set_options_on_empty:
  "set_options_on w self conn = ([], ro) \<Longrightarrow> ro = None"
  using apply_options_empty [of w conn _ ro]
  by (auto simp: set_options_on_def split: option.splits)

lemma new_conn_cases:
  assumes "new_conn w self = (evs, r)"
  obtains (dial_failed) "\<not> call_ok w (dial_event self)" "evs = [dial_event self]" "isl r"
  | (dialled) conn os ro where "call_ok w (dial_event self)"
      "set_options_on w self conn = (os, ro)" "evs = dial_event self # os"
      "r = (case ro of None \<Rightarrow> Inr conn | Some e \<Rightarrow> Inl e)"
  using assms
  by (auto simp: new_conn_def dial_event_def Let_def
           split: sum.splits option.splits prod.splits if_splits)

lemma new_conn_stage:
  assumes "new_conn w self = (evs, r)"
  shows "\<exists>os. evs = dial_event self # os \<and> (\<forall>e \<in> set os. stage e = Suc 0)"
  using assms
  by (cases rule: new_conn_cases) (auto dest: set_options_on_stage)

lemma new_conn_ok:
  assumes "new_conn w self = (evs, r)" "e \<in> set (butlast evs)"
  shows "call_ok w e"
  using assms
  by (cases rule: new_conn_cases) (auto dest: set_options_on_ok split: if_splits)

lemma new_conn_last:
  assumes "new_conn w self = (evs, r)"
  shows "call_ok w (last evs) = (\<not> isl r)"
  using assms
proof (cases rule: new_conn_cases)
  case dial_failed
  then show ?thesis by simp
next
  case (dialled conn os ro)
  then show ?thesis
    by (cases "os = []")
       (auto dest: set_options_on_empty set_options_on_last split: option.splits)
qed

lemma forward_Nil: "forward w [] failed"
  by (simp add: forward_def)

lemma forward_single: "failed \<or> call_ok w e \<Longrightarrow> forward w [e] failed"
  by (auto simp: forward_def)

lemma forward_append:
  assumes "forward w xs False" "forward w ys failed"
    and sep: "\<And>a b. a \<in> set xs \<Longrightarrow> b \<in> set ys \<Longrightarrow> stage a < stage b"
  shows "forward w (xs @ ys) failed"
proof -
  have s: "sorted (map stage (xs @ ys))"
    using assms by (auto simp: forward_def sorted_append dest!: sep less_imp_le)
  have allx: "\<forall>e \<in> set xs. call_ok w e"
    using assms(1) by (simp add: forward_def)
  have b: "\<forall>e \<in> set (butlast (xs @ ys)). call_ok w e"
    using allx assms(2) by (auto simp: forward_def butlast_append dest: in_set_butlastD)
  have c: "failed \<or> (\<forall>e \<in> set (xs @ ys). call_ok w e)"
    using allx assms(2) by (auto simp: forward_def)
  have d: "length (filter (\<lambda>e. stage e = k) (xs @ ys)) \<le> 1" if "k \<noteq> Suc 0" for k
  proof (cases "\<exists>a \<in> set xs. stage a = k")
    case True
    then have "filter (\<lambda>e. stage e = k) ys = []"
      using sep by (fastforce simp: filter_empty_conv)
    then show ?thesis using assms(1) that by (simp add: forward_def)
  next
    case False
    then have "filter (\<lambda>e. stage e = k) xs = []"
      by (auto simp: filter_empty_conv)
    then show ?thesis using assms(2) that by (simp add: forward_def)
  qed
  show ?thesis using s b c d by (simp add: forward_def)
qed

lemma forward_failed: "forward w evs False \<Longrightarrow> forward w evs True"
  by (simp add: forward_def)

lemma sorted_same_stage: "\<forall>e \<in> set os. stage e = k \<Longrightarrow> sorted (map stage os)"
  by (induction os) auto

lemma new_conn_forward:
  assumes "new_conn w self = (evs, r)"
  shows "forward w evs (isl r)"
proof -
  obtain os where os: "evs = dial_event self # os" "\<forall>e \<in> set os. stage e = Suc 0"
    using new_conn_stage [OF assms] by blast
  have st: "stage (dial_event self) = 0" by (simp add: dial_event_def)
  have "sorted (map stage evs)" using os st sorted_same_stage [of os "Suc 0"] by auto
  moreover have "\<forall>e \<in> set (butlast evs). call_ok w e"
    using new_conn_ok [OF assms] by blast
  moreover have "isl r \<or> (\<forall>e \<in> set evs. call_ok w e)"
  proof (cases "isl r")
    case False
    have "evs \<noteq> []" using os by simp
    then have "evs = butlast evs @ [last evs]" by simp
    then have "set evs = set (butlast evs) \<union> {last evs}"
      by (metis list.set(1) list.simps(15) set_append Un_insert_right sup_bot.right_neutral)
    then show ?thesis using new_conn_ok [OF assms] new_conn_last [OF assms] False by auto
  qed simp
  moreover have "length (filter (\<lambda>e. stage e = k) evs) \<le> 1" if "k \<noteq> Suc 0" for k
  proof -
    have "filter (\<lambda>e. stage e = k) os = []" using os that by (auto simp: filter_empty_conv)
    then show ?thesis using os by simp
  qed
  ultimately show ?thesis by (simp add: forward_def)
qed

lemma new_conn_stages: "new_conn w self = (evs, r) \<Longrightarrow> e \<in> set evs \<Longrightarrow> stage e \<le> Suc 0"
  using new_conn_stage [of w self evs r] by (auto simp: dial_event_def)

lemma prepare_conn_forward:
  assumes "prepare_conn w self conn = (evs, self2, r)"
  shows "forward w evs (r \<noteq> None) \<and> (\<forall>e \<in> set evs. stage e = 2)"
  using assms
  by (auto simp: prepare_conn_def Let_def forward_Nil forward_single
           split: option.splits if_splits sum.splits prod.splits)

lemma verified_tunnel_forward:
  assumes "verified_tunnel w self conn = (evs, self2, r)"
  shows "forward w evs (isl r) \<and> (\<forall>e \<in> set evs. stage e = 2)"
  using assms
  by (auto simp: verified_tunnel_def Let_def forward_Nil forward_single
           split: option.splits if_splits sum.splits prod.splits)

lemma verified_checks_forward:
  assumes "verified_checks w self q hn tls = (evs, r)"
  shows "forward w evs (r \<noteq> None) \<and> (\<forall>e \<in> set evs. stage e = 4)"
  using assms
  by (auto simp: verified_checks_def forward_def
           split: option.splits if_splits)

lemma rank_phase_after:
  "rank (phase_after e) = (if stage e = 0 then 1 else if stage e = 4 then 3 else stage e)"
  by (cases e) simp_all

lemma rank_phase_of_mono:
  "call_ok w x \<Longrightarrow> stage x \<le> stage y \<Longrightarrow> rank (phase_of w x) \<le> rank (phase_of w y)"
  by (cases x; cases y) (simp_all add: phase_of_def)

lemma rank_phase_of_bounds:
  "0 < rank (phase_of w e)" "rank (phase_of w e) \<le> 5" "call_ok w e \<Longrightarrow> rank (phase_of w e) \<le> 3"
  by (cases e; simp add: phase_of_def)+

lemma sorted_phases:
  "sorted (map stage xs) \<Longrightarrow> \<forall>e \<in> set (butlast xs). call_ok w e \<Longrightarrow>
     sorted (map (\<lambda>e. rank (phase_of w e)) xs)"
proof (induction xs)
  case Nil
  then show ?case by simp
next
  case (Cons x xs)
  show ?case
  proof (cases "xs = []")
    case True
    then show ?thesis by simp
  next
    case False
    with Cons.prems have ok: "call_ok w x" and le: "\<forall>y \<in> set xs. stage x \<le> stage y"
      and rest: "sorted (map stage xs)" "\<forall>e \<in> set (butlast xs). call_ok w e"
      by auto
    have "\<forall>y \<in> set xs. rank (phase_of w x) \<le> rank (phase_of w y)"
      using ok le rank_phase_of_mono by blast
    then show ?thesis using Cons.IH [OF rest] by simp
  qed
qed

lemma forward_trajectory:
  assumes "forward w evs (r \<noteq> None)"
  shows "sorted (map rank (trajectory w evs r))"
proof -
  have m: "sorted (map (\<lambda>e. rank (phase_of w e)) evs)"
    using assms sorted_phases by (auto simp: forward_def)
  have top: "\<forall>e \<in> set evs. rank (phase_of w e) \<le> (if r = None then 4 else 5)"
  proof (cases "r = None")
    case True
    then have "\<forall>e \<in> set evs. call_ok w e" using assms by (simp add: forward_def)
    then show ?thesis using True rank_phase_of_bounds(3) [of w] by fastforce
  next
    case False
    then show ?thesis by (auto simp: rank_phase_of_bounds(2))
  qed
  have "map rank (trajectory w evs r) =
          0 # map (\<lambda>e. rank (phase_of w e)) evs @ [if r = None then 4 else 5]"
    by (simp add: trajectory_def comp_def)
  then show ?thesis using m top by (auto simp: sorted_append)
qed

lemma HTTPConnection_connect_forward:
  assumes "HTTPConnection_connect w self = (evs, self2, r)"
  shows "forward w evs (r \<noteq> None)"
proof (cases "new_conn w self")
  case (Pair evs0 r0)
  note nc = new_conn_forward [OF Pair] new_conn_stages [OF Pair]
  show ?thesis
  proof (cases r0)
    case (Inl e)
    then show ?thesis using assms Pair nc(1) by (auto simp: HTTPConnection_connect_def)
  next
    case (Inr conn)
    obtain evs2 s2 r2 where p: "prepare_conn w self conn = (evs2, s2, r2)"
      by (cases "prepare_conn w self conn") auto
    have "forward w (evs0 @ evs2) (r2 \<noteq> None)"
    proof (rule forward_append)
      show "forward w evs0 False" using nc(1) Inr by simp
      show "forward w evs2 (r2 \<noteq> None)" using prepare_conn_forward [OF p] by simp
      show "stage a < stage b" if "a \<in> set evs0" "b \<in> set evs2" for a b
        using nc(2) [OF that(1)] prepare_conn_forward [OF p] that(2) by auto
    qed
    then show ?thesis using assms Pair Inr p by (auto simp: HTTPConnection_connect_def)
  qed
qed

lemma HTTPSConnection_connect_forward:
  assumes "HTTPSConnection_connect w self = (evs, self2, r)"
  shows "forward w evs (r \<noteq> None)"
proof (cases "new_conn w self")
  case (Pair evs0 r0)
  note nc = new_conn_forward [OF Pair] new_conn_stages [OF Pair]
  show ?thesis
  proof (cases r0)
    case (Inl e)
    then show ?thesis using assms Pair nc(1) by (auto simp: HTTPSConnection_connect_def)
  next
    case (Inr conn)
    obtain evs2 s2 r2 where p: "prepare_conn w self conn = (evs2, s2, r2)"
      by (cases "prepare_conn w self conn") auto
    note pc = prepare_conn_forward [OF p]
    have f0: "forward w evs0 False" using nc(1) Inr by simp
    show ?thesis
    proof (cases r2)
      case (Some e)
      have "forward w (evs0 @ evs2) True"
      proof (rule forward_append [OF f0])
        show "forward w evs2 True" using pc Some by simp
        show "stage a < stage b" if "a \<in> set evs0" "b \<in> set evs2" for a b
          using nc(2) [OF that(1)] pc that(2) by auto
      qed
      then show ?thesis using assms Pair Inr p Some by (auto simp: HTTPSConnection_connect_def)
    next
      case None
      define wrap :: "'a event" where "wrap = Wrap_socket conn (key_file s2) (cert_file s2)"
      have ev: "evs = evs0 @ evs2 @ [wrap]" and res: "(r \<noteq> None) = (\<not> call_ok w wrap)"
        using assms Pair Inr p None
        by (auto simp: HTTPSConnection_connect_def wrap_def Let_def split: sum.splits)
      have "forward w (evs2 @ [wrap]) (r \<noteq> None)"
      proof (rule forward_append)
        show "forward w evs2 False" using pc None by simp
        show "forward w [wrap] (r \<noteq> None)" using res by (auto intro: forward_single)
        show "stage a < stage b" if "a \<in> set evs2" "b \<in> set [wrap]" for a b
          using pc that by (auto simp: wrap_def)
      qed
      then have "forward w (evs0 @ evs2 @ [wrap]) (r \<noteq> None)"
      proof (rule forward_append [OF f0])
        show "stage a < stage b" if "a \<in> set evs0" "b \<in> set (evs2 @ [wrap])" for a b
          using nc(2) [OF that(1)] pc that(2) by (auto simp: wrap_def)
      qed
      then show ?thesis using ev by simp
    qed
  qed
qed

lemma verified_handshake_forward:
  assumes "verified_handshake w self = (evs, self2, r)"
  shows "forward w evs (isl r) \<and> (\<forall>e \<in> set evs. stage e \<le> 3)"
proof (cases "new_conn w self")
  case (Pair evs0 r0)
  note nc = new_conn_forward [OF Pair] new_conn_stages [OF Pair]
  have low: "\<forall>e \<in> set evs0. stage e \<le> 3" using nc(2) by fastforce
  show ?thesis
  proof (cases r0)
    case (Inl e)
    then show ?thesis using assms Pair nc(1) low by (auto simp: verified_handshake_def)
  next
    case (Inr conn)
    have f0: "forward w evs0 False" using nc(1) Inr by simp
    show ?thesis
    proof (cases "isl (resolve_cert_reqs w (cert_reqs self)) \<or>
                  isl (resolve_ssl_version w (ssl_version self))")
      case True
      then have "evs = evs0" "isl r"
        using assms Pair Inr by (auto simp: verified_handshake_def isl_def split: sum.splits)
      then show ?thesis using forward_failed [OF f0] low by simp
    next
      case False
      then obtain q v where qv: "resolve_cert_reqs w (cert_reqs self) = Inr q"
          "resolve_ssl_version w (ssl_version self) = Inr v"
        by (auto simp: isl_def) (metis sum.exhaust)
      obtain evs2 s2 r2 where t: "verified_tunnel w self conn = (evs2, s2, r2)"
        by (cases "verified_tunnel w self conn") auto
      note tc = verified_tunnel_forward [OF t]
      show ?thesis
      proof (cases r2)
        case (Inl e)
        have "forward w (evs0 @ evs2) True"
        proof (rule forward_append [OF f0])
          show "forward w evs2 True" using tc Inl by simp
          show "stage a < stage b" if "a \<in> set evs0" "b \<in> set evs2" for a b
            using nc(2) [OF that(1)] tc that(2) by auto
        qed
        moreover have "evs = evs0 @ evs2" "isl r"
          using assms Pair Inr qv t Inl by (auto simp: verified_handshake_def)
        ultimately show ?thesis using low tc by auto
      next
        case (Inr hn)
        define wrap :: "'a event" where
          "wrap = Ssl_wrap_socket conn (key_file s2) (cert_file s2) q (ca_certs s2) hn v"
        have ev: "evs = evs0 @ evs2 @ [wrap]" and res: "isl r = (\<not> call_ok w wrap)"
          using assms Pair \<open>r0 = Inr conn\<close> qv t Inr
          by (auto simp: verified_handshake_def wrap_def Let_def split: sum.splits)
        have "forward w (evs2 @ [wrap]) (isl r)"
        proof (rule forward_append)
          show "forward w evs2 False" using tc Inr by simp
          show "forward w [wrap] (isl r)" using res by (auto intro: forward_single)
          show "stage a < stage b" if "a \<in> set evs2" "b \<in> set [wrap]" for a b
            using tc that by (auto simp: wrap_def)
        qed
        then have "forward w (evs0 @ evs2 @ [wrap]) (isl r)"
        proof (rule forward_append [OF f0])
          show "stage a < stage b" if "a \<in> set evs0" "b \<in> set (evs2 @ [wrap])" for a b
            using nc(2) [OF that(1)] tc that(2) by (auto simp: wrap_def)
        qed
        then show ?thesis using ev low tc by (auto simp: wrap_def)
      qed
    qed
  qed
qed

lemma VerifiedHTTPSConnection_connect_forward:
  assumes "VerifiedHTTPSConnection_connect w self = (evs, self2, r)"
  shows "forward w evs (r \<noteq> None)"
proof -
  obtain evs1 s1 r1 where h: "verified_handshake w self = (evs1, s1, r1)"
    by (cases "verified_handshake w self") auto
  note hs = verified_handshake_forward [OF h]
  show ?thesis
  proof (cases r1)
    case (Inl e)
    then show ?thesis using assms h hs by (auto simp: VerifiedHTTPSConnection_connect_def)
  next
    case (Inr res)
    obtain q hn tls where res: "res = (q, hn, tls)" by (cases res) auto
    obtain evs3 r3 where c: "verified_checks w s1 q hn tls = (evs3, r3)"
      by (cases "verified_checks w s1 q hn tls") auto
    note cs = verified_checks_forward [OF c]
    have "forward w (evs1 @ evs3) (r3 \<noteq> None)"
    proof (rule forward_append)
      show "forward w evs1 False" using hs Inr by simp
      show "forward w evs3 (r3 \<noteq> None)" using cs by simp
      show "stage a < stage b" if "a \<in> set evs1" "b \<in> set evs3" for a b
        using hs cs that by fastforce
    qed
    then show ?thesis
      using assms h Inr res c by (auto simp: VerifiedHTTPSConnection_connect_def)
  qed
qed

lemma verified_tunnel_attrs:
  assumes "verified_tunnel w self conn = (evs, self2, r)"
  shows "assert_fingerprint self2 = assert_fingerprint self"
    "assert_hostname self2 = assert_hostname self"
    "key_file self2 = key_file self" "cert_file self2 = cert_file self"
    "ca_certs self2 = ca_certs self"
  using assms
  by (auto simp: verified_tunnel_def Let_def split: option.splits if_splits sum.splits)

lemma verified_handshake_cases:
  assumes "verified_handshake w self = (evs, self2, Inr (q, hn, tls))"
  obtains evs0 conn v evs2 s2 where
    "new_conn w self = (evs0, Inr conn)"
    "resolve_cert_reqs w (cert_reqs self) = Inr q"
    "resolve_ssl_version w (ssl_version self) = Inr v"
    "verified_tunnel w self conn = (evs2, s2, Inr hn)"
    "ssl_wrap_socket w conn (key_file s2) (cert_file s2) q (ca_certs s2) hn v = Inr tls"
    "evs = evs0 @ evs2 @ [Ssl_wrap_socket conn (key_file s2) (cert_file s2) q (ca_certs s2) hn v]"
    "self2 = s2\<lparr>sock := Some tls\<rparr>"
  using assms
  by (auto simp: verified_handshake_def Let_def split: prod.splits sum.splits)

lemma verified_handshake_attrs:
  assumes "verified_handshake w self = (evs, self2, Inr (q, hn, tls))"
  shows "assert_fingerprint self2 = assert_fingerprint self"
    "assert_hostname self2 = assert_hostname self"
    "resolve_cert_reqs w (cert_reqs self) = Inr q"
  using assms
  by (auto elim!: verified_handshake_cases dest: verified_tunnel_attrs)

lemma connect_after_handshake:
  assumes "verified_handshake w self = (evs, self2, Inr (q, hn, tls))"
  shows "VerifiedHTTPSConnection_connect w self =
           (evs @ fst (verified_checks w self2 q hn tls), self2,
            snd (verified_checks w self2 q hn tls))"
  using assms by (simp add: VerifiedHTTPSConnection_connect_def split: prod.splits)

lemmas model_defs =
  VerifiedHTTPSConnection_connect_def HTTPSConnection_connect_def HTTPConnection_connect_def
  verified_handshake_def verified_checks_def verified_tunnel_def prepare_conn_def
  new_conn_def set_options_on_def timeout_message_def util_assert_fingerprint_def py_or_def
  set_cert_def HTTPSConnection_init_def HTTPConnection_init_def default_socket_options_def
  default_port_http_def default_port_https_def port_by_scheme_def
  IPPROTO_TCP_def TCP_NODELAY_def CERT_NONE_def

lemmas example_defs = example_env_def example_conn_def verified_example_def example_log_def

lemma verified_example_handshake:
  "verified_handshake example_env verified_example =
     (example_log,
      verified_example\<lparr>sock := Some 8, host := ''target.example'', port := 443, auto_open := 0\<rparr>,
      Inr (2, ''target.example'', 8))"
  by (simp add: model_defs example_defs)

lemma prepare_conn_attrs:
  assumes "prepare_conn w self conn = (evs, self2, r)"
  shows "key_file self2 = key_file self" "cert_file self2 = cert_file self"
  using assms
  by (auto simp: prepare_conn_def Let_def split: option.splits if_splits sum.splits)

lemma HTTPSConnection_connect_log:
  assumes "e \<in> set (fst (HTTPSConnection_connect w self))"
  shows "stage e \<le> 2 \<or> (\<exists>c. e = Wrap_socket c (key_file self) (cert_file self))"
proof (cases "new_conn w self")
  case (Pair evs0 r0)
  note nc = new_conn_stages [OF Pair]
  show ?thesis
  proof (cases r0)
    case (Inl x)
    then show ?thesis using assms Pair nc by (fastforce simp: HTTPSConnection_connect_def)
  next
    case (Inr conn)
    obtain evs2 s2 r2 where p: "prepare_conn w self conn = (evs2, s2, r2)"
      by (cases "prepare_conn w self conn") auto
    have "e \<in> set evs0 \<or> e \<in> set evs2 \<or> e = Wrap_socket conn (key_file self) (cert_file self)"
      using assms Pair Inr p prepare_conn_attrs [OF p]
      by (auto simp: HTTPSConnection_connect_def Let_def split: option.splits sum.splits)
    then show ?thesis using nc prepare_conn_forward [OF p] by fastforce
  qed
qed

lemma HTTPSConnection_connect_wrapped:
  assumes "snd (snd (HTTPSConnection_connect w self)) = None"
  shows "\<exists>c. Wrap_socket c (key_file self) (cert_file self) \<in> set (fst (HTTPSConnection_connect w self))"
proof (cases "new_conn w self")
  case (Pair evs0 r0)
  show ?thesis
  proof (cases r0)
    case (Inl x)
    then show ?thesis using assms Pair by (simp add: HTTPSConnection_connect_def)
  next
    case (Inr conn)
    obtain evs2 s2 r2 where p: "prepare_conn w self conn = (evs2, s2, r2)"
      by (cases "prepare_conn w self conn") auto
    show ?thesis
      using assms Pair Inr p prepare_conn_attrs [OF p]
      by (auto simp: HTTPSConnection_connect_def Let_def split: option.splits sum.splits)
  qed
qed

lemma verified_checks_log:
  assumes "e \<in> set (fst (verified_checks w self q hn tls))"
  shows "(\<exists>der fp. e = Assert_fingerprint der fp) \<or>
         (\<exists>cert ah. assert_hostname self = Some ah \<and>
            e = Match_hostname cert (if truthy ah then ah else PyStr hn))"
  using assms
  by (auto simp: verified_checks_def py_or_def split: option.splits if_splits)

lemma example_new_conn:
  "new_conn example_env example_conn =
     ([Create_connection (''proxy.example'', 3128) 5 [], Setsockopt 7 (6, 1, 1)], Inr 7)"
  by (simp add: model_defs example_defs)

lemma example_tunnel_host:
  "tunnel_host example_conn = Some ''target.example''" "''target.example'' \<noteq> []"
  by (simp_all add: example_defs HTTPSConnection_init_def HTTPConnection_init_def)

lemmas more_example_defs = override_example_def proxy_named_example_def unset_example_def

lemma apply_options_match_hostname:
  "apply_options (w\<lparr>match_hostname := m\<rparr>) conn opts = apply_options w conn opts"
  by (induction opts) (auto split: option.splits)

lemma new_conn_match_hostname:
  "new_conn (w\<lparr>match_hostname := m\<rparr>) self = new_conn w self"
  by (auto simp: new_conn_def set_options_on_def timeout_message_def Let_def
             apply_options_match_hostname
           split: sum.splits option.splits)

lemma verified_tunnel_match_hostname:
  "verified_tunnel (w\<lparr>match_hostname := m\<rparr>) self conn = verified_tunnel w self conn"
  by (auto simp: verified_tunnel_def Let_def split: sum.splits option.splits)

lemma verified_handshake_match_hostname:
  "verified_handshake (w\<lparr>match_hostname := m\<rparr>) self = verified_handshake w self"
  by (auto simp: verified_handshake_def Let_def new_conn_match_hostname
             verified_tunnel_match_hostname
           split: sum.splits prod.splits)

subsection \<open>The path of an attempt\<close>

lemma remdups_adj_replicate_append:
  "remdups_adj (replicate (Suc k) x @ ys) = remdups_adj (x # ys)"
  by (induction k) simp_all

lemma map_const_replicate: "\<forall>e \<in> set xs. f e = c \<Longrightarrow> map f xs = replicate (length xs) c"
  by (induction xs) auto

lemma raw_phase: "call_ok w e \<Longrightarrow> stage e \<le> Suc 0 \<Longrightarrow> phase_of w e = RawConnected"
  by (cases e) (simp_all add: phase_of_def)

lemma new_conn_phases:
  assumes "new_conn w self = (evs0, r0)"
  shows "\<exists>k. map (phase_of w) evs0 =
           (if isl r0 then replicate k RawConnected @ [Failed] else replicate (Suc k) RawConnected)"
proof -
  have ne: "evs0 \<noteq> []" using new_conn_stage [OF assms] by auto
  then have split: "evs0 = butlast evs0 @ [last evs0]" by simp
  have "\<forall>e \<in> set (butlast evs0). phase_of w e = RawConnected"
    using new_conn_ok [OF assms] new_conn_stages [OF assms]
    by (meson in_set_butlastD raw_phase)
  then have b: "map (phase_of w) (butlast evs0) = replicate (length (butlast evs0)) RawConnected"
    by (rule map_const_replicate)
  have l: "phase_of w (last evs0) = (if isl r0 then Failed else RawConnected)"
  proof (cases "isl r0")
    case True
    then show ?thesis using new_conn_last [OF assms] by (simp add: phase_of_def)
  next
    case False
    then show ?thesis
      using new_conn_last [OF assms] new_conn_stages [OF assms, of "last evs0"] ne
      by (simp add: raw_phase)
  qed
  have "map (phase_of w) evs0 = map (phase_of w) (butlast evs0) @ [phase_of w (last evs0)]"
    using split by (metis list.simps(8) list.simps(9) map_append)
  then have "map (phase_of w) evs0 =
               replicate (length (butlast evs0)) RawConnected @ [if isl r0 then Failed else RawConnected]"
    using b l by simp
  then show ?thesis
    by (auto simp: replicate_append_same intro: exI [of _ "length (butlast evs0)"])
qed

lemma raw_then:
  assumes "map (phase_of w) evs0 = replicate (Suc k) RawConnected"
  shows "remdups_adj (trajectory w (evs0 @ rest) r) =
           Unconnected #
           remdups_adj (RawConnected # map (phase_of w) rest @ [if r = None then Ready else Failed])"
proof -
  have "trajectory w (evs0 @ rest) r =
          Unconnected # replicate (Suc k) RawConnected @
            (map (phase_of w) rest @ [if r = None then Ready else Failed])"
    using assms by (simp add: trajectory_def)
  moreover have "remdups_adj (Unconnected # replicate (Suc k) RawConnected @ ys) =
          Unconnected # remdups_adj (replicate (Suc k) RawConnected @ ys)" for ys
    by simp
  ultimately show ?thesis
    by (simp only: remdups_adj_replicate_append)
qed

lemma raw_failed:
  assumes "map (phase_of w) evs0 = replicate k RawConnected @ [Failed]" and "r \<noteq> None"
  shows "remdups_adj (trajectory w evs0 r) =
           (if k = 0 then [Unconnected, Failed] else [Unconnected, RawConnected, Failed])"
proof (cases k)
  case 0
  then show ?thesis using assms by (simp add: trajectory_def)
next
  case (Suc j)
  have "trajectory w evs0 r = Unconnected # replicate (Suc j) RawConnected @ [Failed, Failed]"
    using assms Suc by (simp add: trajectory_def)
  moreover have "remdups_adj (Unconnected # replicate (Suc j) RawConnected @ [Failed, Failed]) =
          Unconnected # remdups_adj (replicate (Suc j) RawConnected @ [Failed, Failed])"
    by simp
  ultimately show ?thesis using Suc
    by (simp only: remdups_adj_replicate_append) simp
qed

lemma follows_pathI:
  assumes "r = None \<longrightarrow> L = planned_path tls self @ [Ready]"
    and "r \<noteq> None \<longrightarrow>
           L = [Unconnected, Failed] \<or> L = [Unconnected, RawConnected, Failed] \<or>
           (tunnel_requested self \<and> L = [Unconnected, RawConnected, Tunneled, Failed]) \<or>
           L = planned_path tls self @ [Failed]"
    and "L = remdups_adj (trajectory w evs r)"
  shows "follows_path w self tls evs r"
proof (cases "r = None")
  case True
  then show ?thesis using assms by (simp add: follows_path_def)
next
  case False
  then consider "L = [Unconnected, Failed]" | "L = [Unconnected, RawConnected, Failed]"
    | "tunnel_requested self" "L = [Unconnected, RawConnected, Tunneled, Failed]"
    | "L = planned_path tls self @ [Failed]"
    using assms(2) by blast
  then have "\<exists>n. 0 < n \<and> L = take n (planned_path tls self) @ [Failed]"
  proof cases
    case 1
    then show ?thesis by (intro exI [of _ 1]) (simp add: planned_path_def)
  next
    case 2
    then show ?thesis by (intro exI [of _ 2]) (simp add: planned_path_def)
  next
    case 3
    then show ?thesis by (intro exI [of _ 3]) (simp add: planned_path_def)
  next
    case 4
    then show ?thesis
      by (intro exI [of _ "length (planned_path tls self)"]) (simp add: planned_path_def)
  qed
  then show ?thesis using False assms(3) by (auto simp: follows_path_def)
qed

lemma new_conn_failed_path:
  assumes "new_conn w self = (evs0, Inl e)"
  shows "follows_path w self tls evs0 (Some e)"
proof -
  obtain k where "map (phase_of w) evs0 = replicate k RawConnected @ [Failed]"
    using new_conn_phases [OF assms] by auto
  then have "remdups_adj (trajectory w evs0 (Some e)) =
           (if k = 0 then [Unconnected, Failed] else [Unconnected, RawConnected, Failed])"
    by (rule raw_failed) simp
  then show ?thesis
    by (intro follows_pathI [OF _ _ refl]) auto
qed

lemma prepare_conn_phases:
  assumes "prepare_conn w self conn = (evs2, s2, r2)"
  shows "(\<not> tunnel_requested self \<and> evs2 = [] \<and> r2 = None) \<or>
         (tunnel_requested self \<and> r2 = None \<and> map (phase_of w) evs2 = [Tunneled]) \<or>
         (tunnel_requested self \<and> r2 \<noteq> None \<and> map (phase_of w) evs2 = [Failed])"
  using assms
  by (auto simp: prepare_conn_def tunnel_requested_def phase_of_def Let_def
           split: option.splits if_splits sum.splits)

lemma verified_tunnel_phases:
  assumes "verified_tunnel w self conn = (evs2, s2, r2)"
  shows "(\<not> tunnel_requested self \<and> evs2 = [] \<and> \<not> isl r2) \<or>
         (tunnel_requested self \<and> \<not> isl r2 \<and> map (phase_of w) evs2 = [Tunneled]) \<or>
         (tunnel_requested self \<and> isl r2 \<and> map (phase_of w) evs2 = [Failed])"
  using assms
  by (auto simp: verified_tunnel_def tunnel_requested_def phase_of_def Let_def
           split: option.splits if_splits sum.splits)

lemma verified_checks_phases:
  assumes "verified_checks w self q hn tls = (evs3, r3)"
  shows "(r3 = None \<and> (evs3 = [] \<or> map (phase_of w) evs3 = [TLSWrapped])) \<or>
         (r3 \<noteq> None \<and> (evs3 = [] \<or> map (phase_of w) evs3 = [Failed]))"
  using assms
  by (auto simp: verified_checks_def phase_of_def split: option.splits if_splits)

lemma HTTPConnection_connect_path:
  assumes "HTTPConnection_connect w self = (evs, self2, r)"
  shows "follows_path w self False evs r"
proof (cases "new_conn w self")
  case (Pair evs0 r0)
  show ?thesis
  proof (cases r0)
    case (Inl e)
    then show ?thesis
      using assms Pair new_conn_failed_path [of w self evs0 e False]
      by (simp add: HTTPConnection_connect_def)
  next
    case (Inr conn)
    obtain k where k: "map (phase_of w) evs0 = replicate (Suc k) RawConnected"
      using new_conn_phases [OF Pair] Inr by auto
    obtain evs2 s2 r2 where p: "prepare_conn w self conn = (evs2, s2, r2)"
      by (cases "prepare_conn w self conn") auto
    have ev: "evs = evs0 @ evs2" "r = r2"
      using assms Pair Inr p by (auto simp: HTTPConnection_connect_def)
    show ?thesis
      using prepare_conn_phases [OF p] ev
      by (intro follows_pathI [OF _ _ refl]) (auto simp: raw_then [OF k] planned_path_def)
  qed
qed

lemma HTTPSConnection_connect_path:
  assumes "HTTPSConnection_connect w self = (evs, self2, r)"
  shows "follows_path w self True evs r"
proof (cases "new_conn w self")
  case (Pair evs0 r0)
  show ?thesis
  proof (cases r0)
    case (Inl e)
    then show ?thesis
      using assms Pair new_conn_failed_path [of w self evs0 e True]
      by (simp add: HTTPSConnection_connect_def)
  next
    case (Inr conn)
    obtain k where k: "map (phase_of w) evs0 = replicate (Suc k) RawConnected"
      using new_conn_phases [OF Pair] Inr by auto
    obtain evs2 s2 r2 where p: "prepare_conn w self conn = (evs2, s2, r2)"
      by (cases "prepare_conn w self conn") auto
    show ?thesis
    proof (cases r2)
      case (Some e)
      then have ev: "evs = evs0 @ evs2" "r = r2"
        using assms Pair Inr p by (auto simp: HTTPSConnection_connect_def)
      show ?thesis
        using prepare_conn_phases [OF p] ev Some
        by (intro follows_pathI [OF _ _ refl]) (auto simp: raw_then [OF k] planned_path_def)
    next
      case None
      define wrap :: "'a event" where "wrap = Wrap_socket conn (key_file s2) (cert_file s2)"
      have ev: "evs = evs0 @ (evs2 @ [wrap])" and res: "(r = None) = call_ok w wrap"
        using assms Pair Inr p None
        by (auto simp: HTTPSConnection_connect_def wrap_def Let_def split: sum.splits)
      have ph: "phase_of w wrap = (if r = None then TLSWrapped else Failed)"
        using res by (simp add: phase_of_def wrap_def)
      show ?thesis
        using prepare_conn_phases [OF p] ev None ph
        by (intro follows_pathI [OF _ _ refl]) (auto simp: raw_then [OF k] planned_path_def)
    qed
  qed
qed

lemma verified_resolve_failures:
  assumes "new_conn w self = (evs0, Inr conn)"
  shows "resolve_cert_reqs w (cert_reqs self) = Inl x \<Longrightarrow>
           VerifiedHTTPSConnection_connect w self = (evs0, self, Some (Raised x))"
    and "resolve_cert_reqs w (cert_reqs self) = Inr q \<Longrightarrow>
         resolve_ssl_version w (ssl_version self) = Inl x \<Longrightarrow>
           VerifiedHTTPSConnection_connect w self = (evs0, self, Some (Raised x))"
  using assms
  by (simp_all add: VerifiedHTTPSConnection_connect_def verified_handshake_def)

lemma verified_attribute_failures:
  assumes "verified_handshake w self = (evs1, s1, Inr (q, hn, tls))" and "q \<noteq> CERT_NONE"
  shows "assert_fingerprint self = None \<Longrightarrow>
           VerifiedHTTPSConnection_connect w self =
             (evs1, s1, Some (AttributeError ''assert_fingerprint''))"
    and "assert_fingerprint self = Some fp \<Longrightarrow> \<not> truthy fp \<Longrightarrow> assert_hostname self = None \<Longrightarrow>
           VerifiedHTTPSConnection_connect w self =
             (evs1, s1, Some (AttributeError ''assert_hostname''))"
  using assms verified_handshake_attrs [OF assms(1)]
  by (simp_all add: connect_after_handshake verified_checks_def)

lemma VerifiedHTTPSConnection_connect_path:
  assumes "VerifiedHTTPSConnection_connect w self = (evs, self2, r)"
  shows "follows_path w self True evs r"
proof (cases "new_conn w self")
  case (Pair evs0 r0)
  show ?thesis
  proof (cases r0)
    case (Inl e)
    then show ?thesis
      using assms Pair new_conn_failed_path [of w self evs0 e True]
      by (simp add: VerifiedHTTPSConnection_connect_def verified_handshake_def)
  next
    case (Inr conn)
    obtain k where k: "map (phase_of w) evs0 = replicate (Suc k) RawConnected"
      using new_conn_phases [OF Pair] Inr by auto
    note nc = Pair [unfolded Inr]
    show ?thesis
    proof (cases "isl (resolve_cert_reqs w (cert_reqs self)) \<or>
                  isl (resolve_ssl_version w (ssl_version self))")
      case True
      then have "evs = evs0 @ []" "r \<noteq> None"
        using assms nc
        by (auto simp: VerifiedHTTPSConnection_connect_def verified_handshake_def isl_def
                 split: sum.splits)
      then show ?thesis
        by (intro follows_pathI [OF _ _ refl]) (auto simp: raw_then [OF k] simp del: append_Nil2)
    next
      case False
      then obtain q v where qv: "resolve_cert_reqs w (cert_reqs self) = Inr q"
          "resolve_ssl_version w (ssl_version self) = Inr v"
        by (auto simp: isl_def) (metis sum.exhaust)
      obtain evs2 s2 r2 where t: "verified_tunnel w self conn = (evs2, s2, r2)"
        by (cases "verified_tunnel w self conn") auto
      show ?thesis
      proof (cases r2)
        case (Inl e)
        then have "evs = evs0 @ evs2" "r \<noteq> None"
          using assms nc qv t
          by (auto simp: VerifiedHTTPSConnection_connect_def verified_handshake_def)
        then show ?thesis
          using verified_tunnel_phases [OF t] Inl
          by (intro follows_pathI [OF _ _ refl]) (auto simp: raw_then [OF k] planned_path_def)
      next
        case (Inr hn)
        define wrap :: "'a event" where
          "wrap = Ssl_wrap_socket conn (key_file s2) (cert_file s2) q (ca_certs s2) hn v"
        show ?thesis
        proof (cases "ssl_wrap_socket w conn (key_file s2) (cert_file s2) q (ca_certs s2) hn v")
          case (Inl x)
          then have "evs = evs0 @ (evs2 @ [wrap])" "r \<noteq> None" "phase_of w wrap = Failed"
            using assms nc qv t Inr
            by (auto simp: VerifiedHTTPSConnection_connect_def verified_handshake_def wrap_def
                     phase_of_def)
          then show ?thesis
            using verified_tunnel_phases [OF t] Inr
            by (intro follows_pathI [OF _ _ refl]) (auto simp: raw_then [OF k] planned_path_def)
        next
          case wrapped: (Inr tls)
          obtain evs3 r3 where c: "verified_checks w (s2\<lparr>sock := Some tls\<rparr>) q hn tls = (evs3, r3)"
            by (cases "verified_checks w (s2\<lparr>sock := Some tls\<rparr>) q hn tls") auto
          have "evs = evs0 @ (evs2 @ [wrap] @ evs3)" "r = r3" "phase_of w wrap = TLSWrapped"
            using assms nc qv t Inr wrapped c
            by (auto simp: VerifiedHTTPSConnection_connect_def verified_handshake_def wrap_def
                     phase_of_def)
          then show ?thesis
            using verified_tunnel_phases [OF t] Inr verified_checks_phases [OF c]
            by (intro follows_pathI [OF _ _ refl]) (auto simp: raw_then [OF k] planned_path_def)
        qed
      qed
    qed
  qed
qed

lemma connects_start_with_new_conn:
  "\<exists>rest. fst (HTTPConnection_connect w self) = fst (new_conn w self) @ rest"
  "\<exists>rest. fst (HTTPSConnection_connect w self) = fst (new_conn w self) @ rest"
  "\<exists>rest. fst (VerifiedHTTPSConnection_connect w self) = fst (new_conn w self) @ rest"
  by (auto simp: HTTPConnection_connect_def HTTPSConnection_connect_def
        VerifiedHTTPSConnection_connect_def verified_handshake_def Let_def
      split: prod.splits sum.splits option.splits)

lemma new_conn_dials_first: "\<exists>os. fst (new_conn w self) = dial_event self # os"
  using new_conn_stage [of w self "fst (new_conn w self)" "snd (new_conn w self)"] by auto

section \<open>The claims\<close>

subsection \<open>The checks after the handshake\<close>

text \<open>
  C1. In \<^verbatim>\<open>VerifiedHTTPSConnection.connect\<close>, once the handshake has succeeded with a resolved
  certificate requirement other than \<^verbatim>\<open>CERT_NONE\<close>, at most one check runs and the
  fingerprint comes first. A configured fingerprint is one that Python takes as true, which
  is how the code tests it. With one, the only call after the handshake is the fingerprint
  comparison on the peer certificate in binary form, the method returns exactly when the
  digest equals the configured value, and the outcome is the same whatever the hostname
  matcher would answer. Without one, unless \<^verbatim>\<open>assert_hostname is False\<close>, the only call is
  the hostname match of the certificate against \<^verbatim>\<open>assert_hostname or hostname\<close>. With
  \<^verbatim>\<open>assert_hostname\<close> being \<^verbatim>\<open>False\<close> and no fingerprint, no call is made and the method
  returns.
\<close>

theorem post_handshake_check:
  assumes "verified_handshake w self = (evs, self2, Inr (q, hostname, tls))"
    and "q \<noteq> CERT_NONE"
    and "assert_fingerprint self = Some fp"
    and "assert_hostname self = Some ah"
  shows "VerifiedHTTPSConnection_connect w self =
           (if truthy fp then
              (evs @ [Assert_fingerprint (getpeercert_binary w tls) fp], self2,
               if PyStr (fingerprint w (getpeercert_binary w tls)) = fp then None
               else Some (FingerprintMismatchError fp (fingerprint w (getpeercert_binary w tls))))
            else if ah \<noteq> PyBool False then
              (evs @ [Match_hostname (getpeercert w tls) (py_or ah (PyStr hostname))], self2,
               map_option Raised (match_hostname w (getpeercert w tls) (py_or ah (PyStr hostname))))
            else (evs, self2, None)) \<and>
         (truthy fp \<longrightarrow>
            (\<forall>m. VerifiedHTTPSConnection_connect (w\<lparr>match_hostname := m\<rparr>) self =
                  VerifiedHTTPSConnection_connect w self))"
proof -
  have hm: "verified_handshake (w\<lparr>match_hostname := m\<rparr>) self =
              (evs, self2, Inr (q, hostname, tls))" for m
    using assms(1) by (simp add: verified_handshake_match_hostname)
  show ?thesis
    using assms verified_handshake_attrs [OF assms(1)]
    by (simp add: connect_after_handshake [OF hm] connect_after_handshake [OF assms(1)]
        verified_checks_def util_assert_fingerprint_def)
qed

theorem post_handshake_check_witness:
  "verified_handshake example_env fingerprint_example =
     (example_log,
      fingerprint_example\<lparr>sock := Some 8, host := ''target.example'', port := 443, auto_open := 0\<rparr>,
      Inr (2, ''target.example'', 8)) \<and>
   2 \<noteq> CERT_NONE \<and>
   assert_fingerprint fingerprint_example = Some (PyStr ''AA'') \<and>
   assert_hostname fingerprint_example = Some PyNone \<and>
   truthy (PyStr ''AA'') \<and>
   VerifiedHTTPSConnection_connect example_env fingerprint_example =
     (example_log @ [Assert_fingerprint ''der'' (PyStr ''AA'')],
      fingerprint_example\<lparr>sock := Some 8, host := ''target.example'', port := 443, auto_open := 0\<rparr>,
      None) \<and>
   VerifiedHTTPSConnection_connect
     (example_env\<lparr>match_hostname := \<lambda>cert n. Some CertificateError\<rparr>) fingerprint_example =
     VerifiedHTTPSConnection_connect example_env fingerprint_example \<and>
   VerifiedHTTPSConnection_connect example_env verified_example =
     (example_log @ [Match_hostname [(''DNS'', ''target.example'')] (PyStr ''target.example'')],
      verified_example\<lparr>sock := Some 8, host := ''target.example'', port := 443, auto_open := 0\<rparr>,
      None)"
proof -
  have hs: "verified_handshake example_env fingerprint_example =
     (example_log,
      fingerprint_example\<lparr>sock := Some 8, host := ''target.example'', port := 443, auto_open := 0\<rparr>,
      Inr (2, ''target.example'', 8))"
    by (simp add: model_defs example_defs fingerprint_example_def)
  have q: "2 \<noteq> CERT_NONE" by (simp add: CERT_NONE_def)
  have fp: "assert_fingerprint fingerprint_example = Some (PyStr ''AA'')"
    and ah: "assert_hostname fingerprint_example = Some PyNone"
    and fp': "assert_fingerprint verified_example = Some PyNone"
    and ah': "assert_hostname verified_example = Some PyNone"
    by (simp_all add: fingerprint_example_def verified_example_def set_cert_def)
  have tr: "truthy (PyStr ''AA'')" by simp
  note fc = post_handshake_check [OF hs q fp ah]
  have run: "VerifiedHTTPSConnection_connect example_env fingerprint_example =
     (example_log @ [Assert_fingerprint ''der'' (PyStr ''AA'')],
      fingerprint_example\<lparr>sock := Some 8, host := ''target.example'', port := 443, auto_open := 0\<rparr>,
      None)"
    using fc [THEN conjunct1] by (simp add: example_env_def)
  have ind: "VerifiedHTTPSConnection_connect
     (example_env\<lparr>match_hostname := \<lambda>cert n. Some CertificateError\<rparr>) fingerprint_example =
     VerifiedHTTPSConnection_connect example_env fingerprint_example"
    using fc [THEN conjunct2] tr by blast
  have run2: "VerifiedHTTPSConnection_connect example_env verified_example =
     (example_log @ [Match_hostname [(''DNS'', ''target.example'')] (PyStr ''target.example'')],
      verified_example\<lparr>sock := Some 8, host := ''target.example'', port := 443, auto_open := 0\<rparr>,
      None)"
    using post_handshake_check [OF verified_example_handshake q fp' ah', THEN conjunct1]
    by (simp add: py_or_def example_env_def)
  show ?thesis
    using hs q fp ah tr run ind run2 by blast
qed

text \<open>
  C9. With no fingerprint configured and \<^verbatim>\<open>assert_hostname\<close> a non-empty string, the hostname
  check matches the certificate against that string: neither the host of the connection
  nor the target of the tunnel occurs in the call or in the result.
\<close>

theorem assert_hostname_override:
  assumes "verified_handshake w self = (evs, self2, Inr (q, hostname, tls))"
    and "q \<noteq> CERT_NONE"
    and "assert_fingerprint self = Some fp" and "\<not> truthy fp"
    and "assert_hostname self = Some (PyStr name)" and "name \<noteq> []"
  shows "VerifiedHTTPSConnection_connect w self =
           (evs @ [Match_hostname (getpeercert w tls) (PyStr name)], self2,
            map_option Raised (match_hostname w (getpeercert w tls) (PyStr name)))"
  using assms verified_handshake_attrs [OF assms(1)]
  by (simp add: connect_after_handshake verified_checks_def py_or_def)

theorem assert_hostname_override_witness:
  "verified_handshake example_env override_example =
     (example_log,
      override_example\<lparr>sock := Some 8, host := ''target.example'', port := 443, auto_open := 0\<rparr>,
      Inr (2, ''target.example'', 8)) \<and>
   2 \<noteq> CERT_NONE \<and>
   assert_fingerprint override_example = Some PyNone \<and> \<not> truthy PyNone \<and>
   assert_hostname override_example = Some (PyStr ''alias.example'') \<and> ''alias.example'' \<noteq> [] \<and>
   VerifiedHTTPSConnection_connect example_env override_example =
     (example_log @ [Match_hostname [(''DNS'', ''target.example'')] (PyStr ''alias.example'')],
      override_example\<lparr>sock := Some 8, host := ''target.example'', port := 443, auto_open := 0\<rparr>,
      Some (Raised CertificateError))"
proof -
  have hs: "verified_handshake example_env override_example =
     (example_log,
      override_example\<lparr>sock := Some 8, host := ''target.example'', port := 443, auto_open := 0\<rparr>,
      Inr (2, ''target.example'', 8))"
    by (simp add: model_defs example_defs more_example_defs)
  have q: "2 \<noteq> CERT_NONE" by (simp add: CERT_NONE_def)
  have fp: "assert_fingerprint override_example = Some PyNone" and nt: "\<not> truthy PyNone"
    and ah: "assert_hostname override_example = Some (PyStr ''alias.example'')"
    and ne: "''alias.example'' \<noteq> []"
    by (simp_all add: override_example_def set_cert_def)
  show ?thesis
    using hs q fp nt ah ne assert_hostname_override [OF hs q fp nt ah ne]
    by (simp add: example_env_def)
qed

text \<open>
  C6. When the certificate requirement of a verified connection resolves to \<^verbatim>\<open>CERT_NONE\<close>,
  the log of \<^verbatim>\<open>connect\<close> holds neither a fingerprint comparison nor a hostname match,
  whatever the environment and the other attributes are, and a handshake that succeeds is
  the end of the method: it returns.
\<close>

theorem no_check_when_cert_none:
  assumes "resolve_cert_reqs w (cert_reqs self) = Inr CERT_NONE"
  shows "(\<forall>der fp. Assert_fingerprint der fp \<notin> set (fst (VerifiedHTTPSConnection_connect w self))) \<and>
         (\<forall>cert n. Match_hostname cert n \<notin> set (fst (VerifiedHTTPSConnection_connect w self))) \<and>
         (\<forall>evs self2 x. verified_handshake w self = (evs, self2, Inr x) \<longrightarrow>
            VerifiedHTTPSConnection_connect w self = (evs, self2, None))"
proof -
  obtain evs1 s1 r1 where h: "verified_handshake w self = (evs1, s1, r1)"
    by (cases "verified_handshake w self") auto
  have low: "\<forall>e \<in> set evs1. stage e \<le> 3" using verified_handshake_forward [OF h] by simp
  have ev: "fst (VerifiedHTTPSConnection_connect w self) = evs1 \<and>
            (\<not> isl r1 \<longrightarrow> VerifiedHTTPSConnection_connect w self = (evs1, s1, None))"
  proof (cases r1)
    case (Inl e)
    then show ?thesis using h by (simp add: VerifiedHTTPSConnection_connect_def)
  next
    case (Inr x)
    obtain q hn tls where x: "x = (q, hn, tls)" by (cases x) auto
    have "q = CERT_NONE" using verified_handshake_attrs(3) [of w self evs1 s1 q hn tls] h Inr x assms
      by simp
    then show ?thesis using h Inr x
      by (simp add: connect_after_handshake verified_checks_def)
  qed
  have "\<forall>e \<in> set (fst (VerifiedHTTPSConnection_connect w self)). stage e \<le> 3"
    using ev low by simp
  then have "(\<forall>der fp. Assert_fingerprint der fp \<notin> set (fst (VerifiedHTTPSConnection_connect w self))) \<and>
         (\<forall>cert n. Match_hostname cert n \<notin> set (fst (VerifiedHTTPSConnection_connect w self)))"
    by fastforce
  moreover have "\<forall>evs self2 x. verified_handshake w self = (evs, self2, Inr x) \<longrightarrow>
            VerifiedHTTPSConnection_connect w self = (evs, self2, None)"
    using ev h by auto
  ultimately show ?thesis by blast
qed

theorem no_check_when_cert_none_witness:
  "resolve_cert_reqs example_env
     (cert_reqs (set_cert example_conn None None PyNone None PyNone (PyStr ''BB''))) = Inr CERT_NONE \<and>
   VerifiedHTTPSConnection_connect example_env
     (set_cert example_conn None None PyNone None PyNone (PyStr ''BB'')) =
     ([Create_connection (''proxy.example'', 3128) 5 [], Setsockopt 7 (6, 1, 1),
       Tunnel ''target.example'' 7,
       Ssl_wrap_socket 7 None None 0 None ''target.example'' 2],
      (set_cert example_conn None None PyNone None PyNone (PyStr ''BB''))
        \<lparr>sock := Some 8, host := ''target.example'', port := 443, auto_open := 0\<rparr>,
      None) \<and>
   (\<forall>der fp. Assert_fingerprint der fp \<notin> set (fst (VerifiedHTTPSConnection_connect example_env
      (set_cert example_conn None None PyNone None PyNone (PyStr ''BB''))))) \<and>
   (\<forall>cert n. Match_hostname cert n \<notin> set (fst (VerifiedHTTPSConnection_connect example_env
      (set_cert example_conn None None PyNone None PyNone (PyStr ''BB'')))))"
proof -
  have none: "resolve_cert_reqs example_env
     (cert_reqs (set_cert example_conn None None PyNone None PyNone (PyStr ''BB''))) = Inr CERT_NONE"
    by (simp add: example_env_def set_cert_def)
  have run: "VerifiedHTTPSConnection_connect example_env
     (set_cert example_conn None None PyNone None PyNone (PyStr ''BB'')) =
     ([Create_connection (''proxy.example'', 3128) 5 [], Setsockopt 7 (6, 1, 1),
       Tunnel ''target.example'' 7,
       Ssl_wrap_socket 7 None None 0 None ''target.example'' 2],
      (set_cert example_conn None None PyNone None PyNone (PyStr ''BB''))
        \<lparr>sock := Some 8, host := ''target.example'', port := 443, auto_open := 0\<rparr>,
      None)"
    by (simp add: model_defs example_defs)
  show ?thesis
    using none run no_check_when_cert_none [OF none] by blast
qed

text \<open>
  C10. A verified connection on which \<^verbatim>\<open>set_cert\<close> was never called has no attribute
  \<^verbatim>\<open>assert_fingerprint\<close>. If its certificate requirement does not resolve to \<^verbatim>\<open>CERT_NONE\<close>,
  \<^verbatim>\<open>connect\<close> never returns normally: it fails before the checks, or the handshake
  succeeds and reading the attribute raises \<^verbatim>\<open>AttributeError\<close>. No hostname match is made,
  so there is no silent fall-back to the host of the connection.
\<close>

theorem connect_without_set_cert:
  assumes "assert_fingerprint self = None"
    and "resolve_cert_reqs w (cert_reqs self) \<noteq> Inr CERT_NONE"
  shows "snd (snd (VerifiedHTTPSConnection_connect w self)) \<noteq> None \<and>
         (\<forall>cert n. Match_hostname cert n \<notin> set (fst (VerifiedHTTPSConnection_connect w self))) \<and>
         (\<forall>evs self2 x. verified_handshake w self = (evs, self2, Inr x) \<longrightarrow>
            VerifiedHTTPSConnection_connect w self =
              (evs, self2, Some (AttributeError ''assert_fingerprint'')))"
proof -
  obtain evs1 s1 r1 where h: "verified_handshake w self = (evs1, s1, r1)"
    by (cases "verified_handshake w self") auto
  have low: "\<forall>e \<in> set evs1. stage e \<le> 3" using verified_handshake_forward [OF h] by simp
  have ev: "fst (VerifiedHTTPSConnection_connect w self) = evs1 \<and>
            snd (snd (VerifiedHTTPSConnection_connect w self)) \<noteq> None \<and>
            (\<not> isl r1 \<longrightarrow> VerifiedHTTPSConnection_connect w self =
               (evs1, s1, Some (AttributeError ''assert_fingerprint'')))"
  proof (cases r1)
    case (Inl e)
    then show ?thesis using h by (simp add: VerifiedHTTPSConnection_connect_def)
  next
    case (Inr x)
    obtain q hn tls where x: "x = (q, hn, tls)" by (cases x) auto
    have hq: "verified_handshake w self = (evs1, s1, Inr (q, hn, tls))" using h Inr x by simp
    have "q \<noteq> CERT_NONE" "assert_fingerprint s1 = None"
      using verified_handshake_attrs [OF hq] assms by auto
    then show ?thesis using hq Inr
      by (simp add: connect_after_handshake verified_checks_def)
  qed
  have "\<forall>e \<in> set (fst (VerifiedHTTPSConnection_connect w self)). stage e \<le> 3"
    using ev low by simp
  then have "\<forall>cert n. Match_hostname cert n \<notin> set (fst (VerifiedHTTPSConnection_connect w self))"
    by fastforce
  moreover have "\<forall>evs self2 x. verified_handshake w self = (evs, self2, Inr x) \<longrightarrow>
            VerifiedHTTPSConnection_connect w self =
              (evs, self2, Some (AttributeError ''assert_fingerprint''))"
    using ev h by auto
  ultimately show ?thesis using ev by blast
qed

theorem connect_without_set_cert_witness:
  "assert_fingerprint unset_example = None \<and>
   resolve_cert_reqs example_env (cert_reqs unset_example) \<noteq> Inr CERT_NONE \<and>
   VerifiedHTTPSConnection_connect example_env unset_example =
     (example_log,
      unset_example\<lparr>sock := Some 8, host := ''target.example'', port := 443, auto_open := 0\<rparr>,
      Some (AttributeError ''assert_fingerprint'')) \<and>
   snd (snd (VerifiedHTTPSConnection_connect example_env unset_example)) \<noteq> None"
proof -
  have a: "assert_fingerprint unset_example = None"
    by (simp add: model_defs example_defs more_example_defs)
  have b: "resolve_cert_reqs example_env (cert_reqs unset_example) \<noteq> Inr CERT_NONE"
    by (simp add: example_env_def unset_example_def CERT_NONE_def)
  have run: "VerifiedHTTPSConnection_connect example_env unset_example =
     (example_log,
      unset_example\<lparr>sock := Some 8, host := ''target.example'', port := 443, auto_open := 0\<rparr>,
      Some (AttributeError ''assert_fingerprint''))"
    by (simp add: model_defs example_defs more_example_defs)
  show ?thesis
    using a b run connect_without_set_cert [OF a b] by blast
qed

subsection \<open>The tunnel\<close>

text \<open>
  C2, as the spec states it, says that after a tunnel the certificate checks use the
  hostname of the tunnel's target and never the proxy's. The code gives the hostname
  override precedence over the target of the tunnel: a connection through
  \<^verbatim>\<open>proxy.example\<close> to \<^verbatim>\<open>target.example\<close> whose \<^verbatim>\<open>assert_hostname\<close> is \<^verbatim>\<open>proxy.example\<close>
  matches the certificate against the name of the proxy.
\<close>

theorem tunnel_hostname_override_counterexample:
  "host proxy_named_example = ''proxy.example'' \<and>
   tunnel_host proxy_named_example = Some ''target.example'' \<and>
   tunnel example_env ''target.example'' 7 = Inr (''target.example'', 443) \<and>
   fst (VerifiedHTTPSConnection_connect example_env proxy_named_example) =
     [Create_connection (''proxy.example'', 3128) 5 [], Setsockopt 7 (6, 1, 1),
      Tunnel ''target.example'' 7,
      Ssl_wrap_socket 7 None None 2 None ''target.example'' 2,
      Match_hostname [(''DNS'', ''target.example'')] (PyStr ''proxy.example'')] \<and>
   snd (snd (VerifiedHTTPSConnection_connect example_env proxy_named_example)) =
     Some (Raised CertificateError)"
  by (simp add: model_defs example_defs more_example_defs)

text \<open>
  C2, amended. For a verified connection with a tunnel host, once dialling, the two resolve
  calls and the tunnel have succeeded, the connection is marked as not reusable
  (\<^verbatim>\<open>auto_open = 0\<close>), the next call is the TLS handshake with the target of the tunnel as
  server hostname, and every call after it is a fingerprint comparison or a hostname match
  against the target of the tunnel, unless \<^verbatim>\<open>assert_hostname\<close> is a true value, which is
  then the name matched.
\<close>

theorem tunnel_target_hostname:
  assumes "tunnel_host self = Some th" and "th \<noteq> []"
    and "new_conn w self = (evs0, Inr conn)"
    and "resolve_cert_reqs w (cert_reqs self) = Inr q"
    and "resolve_ssl_version w (ssl_version self) = Inr v"
    and "tunnel w th conn = Inr (h, p)"
  shows "auto_open (fst (snd (VerifiedHTTPSConnection_connect w self))) = 0 \<and>
         (\<exists>rest. fst (VerifiedHTTPSConnection_connect w self) =
            evs0 @ [Tunnel th conn,
                    Ssl_wrap_socket conn (key_file self) (cert_file self) q (ca_certs self) th v]
                 @ rest \<and>
            (\<forall>e \<in> set rest.
               (\<exists>der fp. e = Assert_fingerprint der fp) \<or>
               (\<exists>cert ah. assert_hostname self = Some ah \<and>
                  e = Match_hostname cert (if truthy ah then ah else PyStr th))))"
proof -
  define wrap :: "'a event" where
    "wrap = Ssl_wrap_socket conn (key_file self) (cert_file self) q (ca_certs self) th v"
  define s2 where "s2 = self\<lparr>sock := Some conn, host := h, port := p, auto_open := 0\<rparr>"
  have t: "verified_tunnel w self conn = ([Tunnel th conn], s2, Inr th)"
    using assms by (simp add: verified_tunnel_def s2_def Let_def)
  show ?thesis
  proof (cases "ssl_wrap_socket w conn (key_file self) (cert_file self) q (ca_certs self) th v")
    case (Inl x)
    then have "VerifiedHTTPSConnection_connect w self =
                 (evs0 @ [Tunnel th conn, wrap], s2, Some (Raised x))"
      using assms t
      by (simp add: VerifiedHTTPSConnection_connect_def verified_handshake_def wrap_def s2_def)
    then show ?thesis by (simp add: wrap_def s2_def)
  next
    case (Inr tls)
    then have hs: "verified_handshake w self =
                 (evs0 @ [Tunnel th conn, wrap], s2\<lparr>sock := Some tls\<rparr>, Inr (q, th, tls))"
      using assms t by (simp add: verified_handshake_def wrap_def s2_def)
    have ah: "assert_hostname (s2\<lparr>sock := Some tls\<rparr>) = assert_hostname self"
      by (simp add: s2_def)
    show ?thesis
      using connect_after_handshake [OF hs]
        verified_checks_log [of _ w "s2\<lparr>sock := Some tls\<rparr>" q th tls] ah
      by (auto simp: wrap_def s2_def)
  qed
qed

theorem tunnel_target_hostname_witness:
  "tunnel_host verified_example = Some ''target.example'' \<and> ''target.example'' \<noteq> [] \<and>
   new_conn example_env verified_example =
     ([Create_connection (''proxy.example'', 3128) 5 [], Setsockopt 7 (6, 1, 1)], Inr 7) \<and>
   resolve_cert_reqs example_env (cert_reqs verified_example) = Inr 2 \<and>
   resolve_ssl_version example_env (ssl_version verified_example) = Inr 2 \<and>
   tunnel example_env ''target.example'' 7 = Inr (''target.example'', 443) \<and>
   auto_open (fst (snd (VerifiedHTTPSConnection_connect example_env verified_example))) = 0 \<and>
   fst (VerifiedHTTPSConnection_connect example_env verified_example) =
     [Create_connection (''proxy.example'', 3128) 5 [], Setsockopt 7 (6, 1, 1),
      Tunnel ''target.example'' 7,
      Ssl_wrap_socket 7 None None 2 None ''target.example'' 2,
      Match_hostname [(''DNS'', ''target.example'')] (PyStr ''target.example'')]"
proof -
  have th: "tunnel_host verified_example = Some ''target.example''" and ne: "''target.example'' \<noteq> []"
    by (simp_all add: model_defs example_defs)
  have nc: "new_conn example_env verified_example =
     ([Create_connection (''proxy.example'', 3128) 5 [], Setsockopt 7 (6, 1, 1)], Inr 7)"
    by (simp add: model_defs example_defs)
  have q: "resolve_cert_reqs example_env (cert_reqs verified_example) = Inr 2"
    and v: "resolve_ssl_version example_env (ssl_version verified_example) = Inr 2"
    and t: "tunnel example_env ''target.example'' 7 = Inr (''target.example'', 443)"
    by (simp_all add: model_defs example_defs)
  have run: "fst (VerifiedHTTPSConnection_connect example_env verified_example) =
     [Create_connection (''proxy.example'', 3128) 5 [], Setsockopt 7 (6, 1, 1),
      Tunnel ''target.example'' 7,
      Ssl_wrap_socket 7 None None 2 None ''target.example'' 2,
      Match_hostname [(''DNS'', ''target.example'')] (PyStr ''target.example'')]"
    by (simp add: model_defs example_defs)
  show ?thesis
    using th ne nc q v t run tunnel_target_hostname [OF th ne nc q v t] by blast
qed

text \<open>
  C8. The plain and the unverified variant tunnel as well. With a tunnel host and a raw
  connection that succeeded, the call right after the calls of \<^verbatim>\<open>_new_conn\<close> is the tunnel
  handshake, in \<^verbatim>\<open>HTTPConnection.connect\<close> and in \<^verbatim>\<open>HTTPSConnection.connect\<close>, and when the
  tunnel succeeds the connection ends with \<^verbatim>\<open>auto_open = 0\<close>, whatever happens afterwards.
\<close>

theorem tunnel_all_variants:
  assumes "tunnel_host self = Some th" and "th \<noteq> []"
    and "new_conn w self = (evs0, Inr conn)"
  shows "fst (HTTPConnection_connect w self) = evs0 @ [Tunnel th conn] \<and>
         (\<exists>rest. fst (HTTPSConnection_connect w self) = evs0 @ Tunnel th conn # rest) \<and>
         (\<not> isl (tunnel w th conn) \<longrightarrow>
            auto_open (fst (snd (HTTPConnection_connect w self))) = 0 \<and>
            auto_open (fst (snd (HTTPSConnection_connect w self))) = 0)"
  using assms
  by (auto simp: HTTPConnection_connect_def HTTPSConnection_connect_def prepare_conn_def Let_def
           split: sum.splits prod.splits)

theorem tunnel_all_variants_witness:
  "tunnel_host example_conn = Some ''target.example'' \<and> ''target.example'' \<noteq> [] \<and>
   new_conn example_env example_conn =
     ([Create_connection (''proxy.example'', 3128) 5 [], Setsockopt 7 (6, 1, 1)], Inr 7) \<and>
   \<not> isl (tunnel example_env ''target.example'' 7) \<and>
   fst (HTTPConnection_connect example_env example_conn) =
     [Create_connection (''proxy.example'', 3128) 5 [], Setsockopt 7 (6, 1, 1),
      Tunnel ''target.example'' 7] \<and>
   auto_open (fst (snd (HTTPConnection_connect example_env example_conn))) = 0 \<and>
   auto_open (fst (snd (HTTPSConnection_connect example_env example_conn))) = 0"
proof -
  have ok: "\<not> isl (tunnel example_env ''target.example'' 7)"
    by (simp add: example_env_def)
  show ?thesis
    using ok example_tunnel_host example_new_conn
      tunnel_all_variants [OF example_tunnel_host example_new_conn]
    by simp
qed

subsection \<open>Dialling and socket options\<close>

text \<open>
  C3. When \<^verbatim>\<open>socket.create_connection\<close> raises \<^verbatim>\<open>socket.timeout\<close>, \<^verbatim>\<open>_new_conn\<close> and all three
  \<^verbatim>\<open>connect\<close> methods fail after that single call with a \<^verbatim>\<open>ConnectTimeoutError\<close> that
  carries the connection and a message naming its host and its timeout value; the error is
  not the timeout of the socket library.
\<close>

theorem dial_timeout:
  assumes "create_connection w (host self, port self) (timeout self)
             (case source_address self of None \<Rightarrow> [] | Some a \<Rightarrow> [a]) = Inl SocketTimeout"
    and "err = ConnectTimeoutError self
                 (''Connection to '' @ host self @ '' timed out. (connect timeout='' @
                  str_timeout w (timeout self) @ '')'')"
  shows "new_conn w self = ([dial_event self], Inl err) \<and>
         HTTPConnection_connect w self = ([dial_event self], self, Some err) \<and>
         HTTPSConnection_connect w self = ([dial_event self], self, Some err) \<and>
         VerifiedHTTPSConnection_connect w self = ([dial_event self], self, Some err) \<and>
         err \<noteq> Raised SocketTimeout"
proof -
  have n: "new_conn w self = ([dial_event self], Inl err)"
    using assms by (simp add: new_conn_def dial_event_def timeout_message_def Let_def)
  show ?thesis
    using n assms(2)
    by (simp add: HTTPConnection_connect_def HTTPSConnection_connect_def
        VerifiedHTTPSConnection_connect_def verified_handshake_def)
qed

theorem dial_timeout_witness:
  "create_connection example_env
     (host (example_conn\<lparr>host := ''down.example''\<rparr>), port (example_conn\<lparr>host := ''down.example''\<rparr>))
     (timeout (example_conn\<lparr>host := ''down.example''\<rparr>))
     (case source_address (example_conn\<lparr>host := ''down.example''\<rparr>) of None \<Rightarrow> [] | Some a \<Rightarrow> [a])
     = Inl SocketTimeout \<and>
   HTTPConnection_connect example_env (example_conn\<lparr>host := ''down.example''\<rparr>) =
     ([Create_connection (''down.example'', 3128) 5 []],
      example_conn\<lparr>host := ''down.example''\<rparr>,
      Some (ConnectTimeoutError (example_conn\<lparr>host := ''down.example''\<rparr>)
              ''Connection to down.example timed out. (connect timeout=5)''))"
proof -
  have t: "create_connection example_env
     (host (example_conn\<lparr>host := ''down.example''\<rparr>), port (example_conn\<lparr>host := ''down.example''\<rparr>))
     (timeout (example_conn\<lparr>host := ''down.example''\<rparr>))
     (case source_address (example_conn\<lparr>host := ''down.example''\<rparr>) of None \<Rightarrow> [] | Some a \<Rightarrow> [a])
     = Inl SocketTimeout"
    by (simp add: model_defs example_defs)
  show ?thesis
    using t dial_timeout [OF t refl]
    by (simp add: dial_event_def model_defs example_defs)
qed

text \<open>
  C4. A connection built with \<^verbatim>\<open>socket_options=None\<close> has no option list and
  \<^verbatim>\<open>_set_options_on\<close> makes no call. A connection built without the keyword has the default
  list, which is the single option \<^verbatim>\<open>(IPPROTO_TCP, TCP_NODELAY, 1)\<close>. A list is applied
  one option at a time in the order of the list, up to and including the first option that
  fails; the method returns exactly when no option fails, and then it has applied the whole
  list.
\<close>

theorem socket_options_applied:
  "socket_options (HTTPConnection_init h p t src (Some None)) = None \<and>
   (socket_options self = None \<longrightarrow> set_options_on w self conn = ([], None)) \<and>
   socket_options (HTTPConnection_init h p t src None) = Some default_socket_options \<and>
   default_socket_options = [(IPPROTO_TCP, TCP_NODELAY, 1)] \<and>
   socket_options (HTTPConnection_init h p t src (Some (Some opts))) = Some opts \<and>
   (socket_options self = Some opts \<longrightarrow>
      fst (set_options_on w self conn) =
        map (Setsockopt conn)
          (take (Suc (length (takeWhile (\<lambda>opt. setsockopt w conn opt = None) opts))) opts) \<and>
      (snd (set_options_on w self conn) = None) =
        (\<forall>opt \<in> set opts. setsockopt w conn opt = None) \<and>
      ((\<forall>opt \<in> set opts. setsockopt w conn opt = None) \<longrightarrow>
         set_options_on w self conn = (map (Setsockopt conn) opts, None)))"
  by (simp add: HTTPConnection_init_def set_options_on_def default_socket_options_def
      apply_options_events apply_options_result apply_options_all)

theorem socket_options_applied_witness:
  "socket_options (HTTPConnection_init ''example.com'' None (5::nat) None (Some None)) = None \<and>
   set_options_on example_env
     (HTTPConnection_init ''example.com'' None (5::nat) None (Some None)) 7 = ([], None) \<and>
   socket_options (HTTPConnection_init ''example.com'' None (5::nat) None None) = Some [(6, 1, 1)] \<and>
   setsockopt example_env 7 (6, 1, 1) = None \<and>
   set_options_on example_env
     (HTTPConnection_init ''example.com'' None (5::nat) None None) 7 =
     ([Setsockopt 7 (6, 1, 1)], None)"
proof -
  have a: "socket_options (HTTPConnection_init ''example.com'' None (5::nat) None (Some None)) = None"
    by (simp add: HTTPConnection_init_def)
  have b: "socket_options (HTTPConnection_init ''example.com'' None (5::nat) None None) = Some [(6, 1, 1)]"
    by (simp add: HTTPConnection_init_def default_socket_options_def IPPROTO_TCP_def TCP_NODELAY_def)
  have c: "\<forall>opt \<in> set [(6, 1, 1)]. setsockopt example_env 7 opt = None"
    by (simp add: example_env_def)
  note none = socket_options_applied [where w = example_env and conn = 7
        and self = "HTTPConnection_init ''example.com'' None (5::nat) None (Some None)"
        and h = "''example.com''" and p = None and t = "5::nat" and src = None
        and opts = "[(6, 1, 1)]",
        THEN conjunct2, THEN conjunct1, rule_format, OF a]
  note some = socket_options_applied [where w = example_env and conn = 7
        and self = "HTTPConnection_init ''example.com'' None (5::nat) None None"
        and h = "''example.com''" and p = None and t = "5::nat" and src = None
        and opts = "[(6, 1, 1)]",
        THEN conjunct2, THEN conjunct2, THEN conjunct2, THEN conjunct2, THEN conjunct2,
        rule_format, OF b, THEN conjunct2, THEN conjunct2, THEN mp, OF c]
  have d: "setsockopt example_env 7 (6, 1, 1) = None"
    by (simp add: example_env_def)
  show ?thesis
    using a b d none some by simp
qed

subsection \<open>The unverified variant\<close>

text \<open>
  C5. For every environment and every connection, the log of the unverified
  \<^verbatim>\<open>HTTPSConnection.connect\<close> holds no fingerprint comparison, no hostname match and no call
  of the verifying \<^verbatim>\<open>ssl_wrap_socket\<close>; the only handshake it can hold is
  \<^verbatim>\<open>ssl.wrap_socket\<close> with the key and certificate files, which asks for \<^verbatim>\<open>CERT_NONE\<close>; and
  a connect that returns has made that handshake.
\<close>

theorem unverified_no_checks:
  "(\<forall>e \<in> set (fst (HTTPSConnection_connect w self)).
      requested_cert_reqs e = None \<or> requested_cert_reqs e = Some CERT_NONE) \<and>
   (\<forall>c k f q ca hn v.
      Ssl_wrap_socket c k f q ca hn v \<notin> set (fst (HTTPSConnection_connect w self))) \<and>
   (\<forall>der fp. Assert_fingerprint der fp \<notin> set (fst (HTTPSConnection_connect w self))) \<and>
   (\<forall>cert n. Match_hostname cert n \<notin> set (fst (HTTPSConnection_connect w self))) \<and>
   (snd (snd (HTTPSConnection_connect w self)) = None \<longrightarrow>
      (\<exists>c. Wrap_socket c (key_file self) (cert_file self)
             \<in> set (fst (HTTPSConnection_connect w self))))"
proof -
  have a: "requested_cert_reqs e = None \<or> requested_cert_reqs e = Some CERT_NONE"
    if "e \<in> set (fst (HTTPSConnection_connect w self))" for e
    using HTTPSConnection_connect_log [OF that] by (cases e) auto
  have b: "Ssl_wrap_socket c k f q ca hn v \<notin> set (fst (HTTPSConnection_connect w self))"
    for c k f q ca hn v
    using HTTPSConnection_connect_log [of "Ssl_wrap_socket c k f q ca hn v" w self] by auto
  have c: "Assert_fingerprint der fp \<notin> set (fst (HTTPSConnection_connect w self))" for der fp
    using HTTPSConnection_connect_log [of "Assert_fingerprint der fp" w self] by auto
  have d: "Match_hostname cert n \<notin> set (fst (HTTPSConnection_connect w self))" for cert n
    using HTTPSConnection_connect_log [of "Match_hostname cert n" w self] by auto
  show ?thesis using a b c d HTTPSConnection_connect_wrapped by blast
qed

theorem unverified_no_checks_witness:
  "HTTPSConnection_connect example_env example_conn =
     ([Create_connection (''proxy.example'', 3128) 5 [], Setsockopt 7 (6, 1, 1),
       Tunnel ''target.example'' 7, Wrap_socket 7 None None],
      example_conn\<lparr>sock := Some 8, host := ''target.example'', port := 443, auto_open := 0\<rparr>,
      None) \<and>
   requested_cert_reqs (Wrap_socket 7 None None :: nat event) = Some CERT_NONE \<and>
   (\<forall>der fp. Assert_fingerprint der fp \<notin> set (fst (HTTPSConnection_connect example_env example_conn))) \<and>
   (\<forall>cert n. Match_hostname cert n \<notin> set (fst (HTTPSConnection_connect example_env example_conn)))"
proof -
  have run: "HTTPSConnection_connect example_env example_conn =
     ([Create_connection (''proxy.example'', 3128) 5 [], Setsockopt 7 (6, 1, 1),
       Tunnel ''target.example'' 7, Wrap_socket 7 None None],
      example_conn\<lparr>sock := Some 8, host := ''target.example'', port := 443, auto_open := 0\<rparr>,
      None)"
    by (simp add: model_defs example_defs)
  have none: "requested_cert_reqs (Wrap_socket 7 None None :: nat event) = Some CERT_NONE"
    by simp
  show ?thesis
    using run none unverified_no_checks [of example_env example_conn] by blast
qed

subsection \<open>The state machine\<close>

text \<open>
  C7. Every attempt of each of the three \<^verbatim>\<open>connect\<close> methods moves forward only. It
  starts with the calls of \<^verbatim>\<open>_new_conn\<close>, the first of which is the dial. The states it
  visits are those of the spec in the order of the spec: an attempt that returns has gone
  from \<open>Unconnected\<close> to \<open>RawConnected\<close>, to \<open>Tunneled\<close> exactly when a tunnel host is set, to
  \<open>TLSWrapped\<close> exactly in the two HTTPS variants, and to \<open>Ready\<close>; an attempt that raises
  has gone through a non-empty initial part of that path and then to \<open>Failed\<close>. The states
  never decrease, the library calls come in the order of the steps, no call before the last
  one has failed, a method that returns has seen no failure, and dialling, the tunnel, the
  handshake and the check are each called at most once, so nothing is retried. The failures
  that are not library calls end the attempt as well: when \<^verbatim>\<open>resolve_cert_reqs\<close> or
  \<^verbatim>\<open>resolve_ssl_version\<close> raises, the log is that of \<^verbatim>\<open>_new_conn\<close> and nothing more, and
  when reading \<^verbatim>\<open>assert_fingerprint\<close> or \<^verbatim>\<open>assert_hostname\<close> raises, the log is that of the
  handshake and nothing more.
\<close>

theorem connect_linear:
  assumes "(connect = HTTPConnection_connect \<and> \<not> tls) \<or>
           (connect = HTTPSConnection_connect \<and> tls) \<or>
           (connect = VerifiedHTTPSConnection_connect \<and> tls)"
    and "connect w self = (evs, self2, r)"
  shows "(\<exists>os rest. fst (new_conn w self) = dial_event self # os \<and>
                     evs = fst (new_conn w self) @ rest) \<and>
         (if r = None
          then remdups_adj (trajectory w evs r) = planned_path tls self @ [Ready]
          else (\<exists>n. 0 < n \<and>
                  remdups_adj (trajectory w evs r) = take n (planned_path tls self) @ [Failed])) \<and>
         sorted (map rank (trajectory w evs r)) \<and>
         sorted (map stage evs) \<and>
         (\<forall>e \<in> set (butlast evs). call_ok w e) \<and>
         (r = None \<longrightarrow> (\<forall>e \<in> set evs. call_ok w e)) \<and>
         (\<forall>k. k \<noteq> Suc 0 \<longrightarrow> length (filter (\<lambda>e. stage e = k) evs) \<le> 1) \<and>
         (\<forall>evs0 conn x.
            new_conn w self = (evs0, Inr conn) \<and> resolve_cert_reqs w (cert_reqs self) = Inl x \<longrightarrow>
            VerifiedHTTPSConnection_connect w self = (evs0, self, Some (Raised x))) \<and>
         (\<forall>evs0 conn q x.
            new_conn w self = (evs0, Inr conn) \<and> resolve_cert_reqs w (cert_reqs self) = Inr q \<and>
            resolve_ssl_version w (ssl_version self) = Inl x \<longrightarrow>
            VerifiedHTTPSConnection_connect w self = (evs0, self, Some (Raised x))) \<and>
         (\<forall>evs1 s1 q hn sk.
            verified_handshake w self = (evs1, s1, Inr (q, hn, sk)) \<and> q \<noteq> CERT_NONE \<and>
            assert_fingerprint self = None \<longrightarrow>
            VerifiedHTTPSConnection_connect w self =
              (evs1, s1, Some (AttributeError ''assert_fingerprint''))) \<and>
         (\<forall>evs1 s1 q hn sk fp.
            verified_handshake w self = (evs1, s1, Inr (q, hn, sk)) \<and> q \<noteq> CERT_NONE \<and>
            assert_fingerprint self = Some fp \<and> \<not> truthy fp \<and> assert_hostname self = None \<longrightarrow>
            VerifiedHTTPSConnection_connect w self =
              (evs1, s1, Some (AttributeError ''assert_hostname'')))"
proof -
  have f: "forward w evs (r \<noteq> None)"
    using assms HTTPConnection_connect_forward HTTPSConnection_connect_forward
      VerifiedHTTPSConnection_connect_forward by blast
  have p: "follows_path w self tls evs r"
    using assms HTTPConnection_connect_path [of w self evs self2 r]
      HTTPSConnection_connect_path [of w self evs self2 r]
      VerifiedHTTPSConnection_connect_path [of w self evs self2 r] by auto
  have s: "\<exists>os rest. fst (new_conn w self) = dial_event self # os \<and>
                     evs = fst (new_conn w self) @ rest"
    using assms connects_start_with_new_conn [of w self] new_conn_dials_first [of w self]
    by (metis fst_conv)
  have a: "sorted (map rank (trajectory w evs r)) \<and>
         sorted (map stage evs) \<and>
         (\<forall>e \<in> set (butlast evs). call_ok w e) \<and>
         (r = None \<longrightarrow> (\<forall>e \<in> set evs. call_ok w e)) \<and>
         (\<forall>k. k \<noteq> Suc 0 \<longrightarrow> length (filter (\<lambda>e. stage e = k) evs) \<le> 1)"
    using f forward_trajectory [OF f] by (auto simp: forward_def)
  have b: "if r = None
          then remdups_adj (trajectory w evs r) = planned_path tls self @ [Ready]
          else (\<exists>n. 0 < n \<and>
                  remdups_adj (trajectory w evs r) = take n (planned_path tls self) @ [Failed])"
    using p by (simp add: follows_path_def)
  have c: "(\<forall>evs0 conn x.
            new_conn w self = (evs0, Inr conn) \<and> resolve_cert_reqs w (cert_reqs self) = Inl x \<longrightarrow>
            VerifiedHTTPSConnection_connect w self = (evs0, self, Some (Raised x))) \<and>
         (\<forall>evs0 conn q x.
            new_conn w self = (evs0, Inr conn) \<and> resolve_cert_reqs w (cert_reqs self) = Inr q \<and>
            resolve_ssl_version w (ssl_version self) = Inl x \<longrightarrow>
            VerifiedHTTPSConnection_connect w self = (evs0, self, Some (Raised x)))"
    using verified_resolve_failures [of w self] by blast
  have d: "(\<forall>evs1 s1 q hn sk.
            verified_handshake w self = (evs1, s1, Inr (q, hn, sk)) \<and> q \<noteq> CERT_NONE \<and>
            assert_fingerprint self = None \<longrightarrow>
            VerifiedHTTPSConnection_connect w self =
              (evs1, s1, Some (AttributeError ''assert_fingerprint''))) \<and>
         (\<forall>evs1 s1 q hn sk fp.
            verified_handshake w self = (evs1, s1, Inr (q, hn, sk)) \<and> q \<noteq> CERT_NONE \<and>
            assert_fingerprint self = Some fp \<and> \<not> truthy fp \<and> assert_hostname self = None \<longrightarrow>
            VerifiedHTTPSConnection_connect w self =
              (evs1, s1, Some (AttributeError ''assert_hostname'')))"
    using verified_attribute_failures [of w self] by blast
  from a have a1: "sorted (map rank (trajectory w evs r))"
    and a2: "sorted (map stage evs)"
    and a3: "\<forall>e \<in> set (butlast evs). call_ok w e"
    and a4: "r = None \<longrightarrow> (\<forall>e \<in> set evs. call_ok w e)"
    and a5: "\<forall>k. k \<noteq> Suc 0 \<longrightarrow> length (filter (\<lambda>e. stage e = k) evs) \<le> 1"
    by blast+
  show ?thesis
    by (intro conjI) (fact s b a1 a2 a3 a4 a5 c [THEN conjunct1] c [THEN conjunct2]
        d [THEN conjunct1] d [THEN conjunct2])+
qed

theorem connect_linear_witness:
  "VerifiedHTTPSConnection_connect example_env verified_example =
     (example_log @ [Match_hostname [(''DNS'', ''target.example'')] (PyStr ''target.example'')],
      verified_example\<lparr>sock := Some 8, host := ''target.example'', port := 443, auto_open := 0\<rparr>,
      None) \<and>
   trajectory example_env
     (example_log @ [Match_hostname [(''DNS'', ''target.example'')] (PyStr ''target.example'')]) None =
     [Unconnected, RawConnected, RawConnected, Tunneled, TLSWrapped, TLSWrapped, Ready] \<and>
   sorted (map rank (trajectory example_env
     (example_log @ [Match_hostname [(''DNS'', ''target.example'')] (PyStr ''target.example'')]) None)) \<and>
   remdups_adj (trajectory example_env
     (example_log @ [Match_hostname [(''DNS'', ''target.example'')] (PyStr ''target.example'')]) None) =
     [Unconnected, RawConnected, Tunneled, TLSWrapped, Ready] \<and>
   planned_path True verified_example = [Unconnected, RawConnected, Tunneled, TLSWrapped] \<and>
   HTTPConnection_connect example_env example_conn =
     ([Create_connection (''proxy.example'', 3128) 5 [], Setsockopt 7 (6, 1, 1),
       Tunnel ''target.example'' 7],
      example_conn\<lparr>sock := Some 7, host := ''target.example'', port := 443, auto_open := 0\<rparr>,
      None) \<and>
   remdups_adj (trajectory example_env
     [Create_connection (''proxy.example'', 3128) 5 [], Setsockopt 7 (6, 1, 1),
      Tunnel ''target.example'' 7] None) =
     [Unconnected, RawConnected, Tunneled, Ready] \<and>
   HTTPSConnection_connect example_env example_conn =
     ([Create_connection (''proxy.example'', 3128) 5 [], Setsockopt 7 (6, 1, 1),
       Tunnel ''target.example'' 7, Wrap_socket 7 None None],
      example_conn\<lparr>sock := Some 8, host := ''target.example'', port := 443, auto_open := 0\<rparr>,
      None) \<and>
   remdups_adj (trajectory example_env
     [Create_connection (''proxy.example'', 3128) 5 [], Setsockopt 7 (6, 1, 1),
      Tunnel ''target.example'' 7, Wrap_socket 7 None None] None) =
     [Unconnected, RawConnected, Tunneled, TLSWrapped, Ready] \<and>
   HTTPConnection_connect example_env down_example =
     ([Create_connection (''down.example'', 3128) 5 []], down_example,
      Some (ConnectTimeoutError down_example
              ''Connection to down.example timed out. (connect timeout=5)'')) \<and>
   remdups_adj (trajectory example_env [Create_connection (''down.example'', 3128) 5 []]
      (Some (ConnectTimeoutError down_example
              ''Connection to down.example timed out. (connect timeout=5)''))) =
     [Unconnected, Failed] \<and>
   VerifiedHTTPSConnection_connect broken_resolver_env verified_example =
     ([Create_connection (''proxy.example'', 3128) 5 [], Setsockopt 7 (6, 1, 1)],
      verified_example, Some (Raised OtherError)) \<and>
   VerifiedHTTPSConnection_connect example_env unset_example =
     (example_log,
      unset_example\<lparr>sock := Some 8, host := ''target.example'', port := 443, auto_open := 0\<rparr>,
      Some (AttributeError ''assert_fingerprint''))"
proof -
  have run: "VerifiedHTTPSConnection_connect example_env verified_example =
     (example_log @ [Match_hostname [(''DNS'', ''target.example'')] (PyStr ''target.example'')],
      verified_example\<lparr>sock := Some 8, host := ''target.example'', port := 443, auto_open := 0\<rparr>,
      None)"
    by (simp add: model_defs example_defs)
  have tr: "trajectory example_env
     (example_log @ [Match_hostname [(''DNS'', ''target.example'')] (PyStr ''target.example'')]) None =
     [Unconnected, RawConnected, RawConnected, Tunneled, TLSWrapped, TLSWrapped, Ready]"
    by (simp add: trajectory_def phase_of_def example_defs)
  have path: "planned_path True verified_example = [Unconnected, RawConnected, Tunneled, TLSWrapped]"
    by (simp add: planned_path_def tunnel_requested_def model_defs example_defs)
  have plain: "HTTPConnection_connect example_env example_conn =
     ([Create_connection (''proxy.example'', 3128) 5 [], Setsockopt 7 (6, 1, 1),
       Tunnel ''target.example'' 7],
      example_conn\<lparr>sock := Some 7, host := ''target.example'', port := 443, auto_open := 0\<rparr>,
      None)"
    by (simp add: model_defs example_defs)
  have plain_tr: "remdups_adj (trajectory example_env
     [Create_connection (''proxy.example'', 3128) 5 [], Setsockopt 7 (6, 1, 1),
      Tunnel ''target.example'' 7] None) =
     [Unconnected, RawConnected, Tunneled, Ready]"
    by (simp add: trajectory_def phase_of_def example_defs)
  have unv: "HTTPSConnection_connect example_env example_conn =
     ([Create_connection (''proxy.example'', 3128) 5 [], Setsockopt 7 (6, 1, 1),
       Tunnel ''target.example'' 7, Wrap_socket 7 None None],
      example_conn\<lparr>sock := Some 8, host := ''target.example'', port := 443, auto_open := 0\<rparr>,
      None)"
    by (simp add: model_defs example_defs)
  have unv_tr: "remdups_adj (trajectory example_env
     [Create_connection (''proxy.example'', 3128) 5 [], Setsockopt 7 (6, 1, 1),
      Tunnel ''target.example'' 7, Wrap_socket 7 None None] None) =
     [Unconnected, RawConnected, Tunneled, TLSWrapped, Ready]"
    by (simp add: trajectory_def phase_of_def example_defs)
  have down: "HTTPConnection_connect example_env down_example =
     ([Create_connection (''down.example'', 3128) 5 []], down_example,
      Some (ConnectTimeoutError down_example
              ''Connection to down.example timed out. (connect timeout=5)''))"
    by (simp add: model_defs example_defs down_example_def)
  have down_tr: "remdups_adj (trajectory example_env [Create_connection (''down.example'', 3128) 5 []]
      (Some (ConnectTimeoutError down_example
              ''Connection to down.example timed out. (connect timeout=5)''))) =
     [Unconnected, Failed]"
    by (simp add: trajectory_def phase_of_def example_defs)
  have broken: "VerifiedHTTPSConnection_connect broken_resolver_env verified_example =
     ([Create_connection (''proxy.example'', 3128) 5 [], Setsockopt 7 (6, 1, 1)],
      verified_example, Some (Raised OtherError))"
    by (simp add: model_defs example_defs broken_resolver_env_def)
  have unset: "VerifiedHTTPSConnection_connect example_env unset_example =
     (example_log,
      unset_example\<lparr>sock := Some 8, host := ''target.example'', port := 443, auto_open := 0\<rparr>,
      Some (AttributeError ''assert_fingerprint''))"
    by (simp add: model_defs example_defs more_example_defs)
  note v = connect_linear [where connect = VerifiedHTTPSConnection_connect and tls = True
      and w = example_env and self = verified_example, OF _ run]
  note h = connect_linear [where connect = HTTPConnection_connect and tls = False
      and w = example_env and self = example_conn, OF _ plain]
  note u = connect_linear [where connect = HTTPSConnection_connect and tls = True
      and w = example_env and self = example_conn, OF _ unv]
  note d = connect_linear [where connect = HTTPConnection_connect and tls = False
      and w = example_env and self = down_example, OF _ down]
  note b = connect_linear [where connect = VerifiedHTTPSConnection_connect and tls = True
      and w = broken_resolver_env and self = verified_example, OF _ broken]
  have srt: "sorted (map rank (trajectory example_env
     (example_log @ [Match_hostname [(''DNS'', ''target.example'')] (PyStr ''target.example'')]) None))"
    using v by simp
  have ded: "remdups_adj (trajectory example_env
     (example_log @ [Match_hostname [(''DNS'', ''target.example'')] (PyStr ''target.example'')]) None) =
     [Unconnected, RawConnected, Tunneled, TLSWrapped, Ready]"
    using v path by simp
  show ?thesis
    using run tr srt ded path plain plain_tr unv unv_tr down down_tr broken unset h u d b
    by simp
qed

end
